theory Spec2Isabelle
  imports Main "HOL-Library.Word"
begin

unbundle bit_operations_syntax

section \<open>Bytes, errors and the opcode table\<close>

text \<open>
  A script is a sequence of bytes (the repository's \<open>ByteArray\<close>). Python exceptions are
  values of the type \<open>error\<close>; a function that can raise returns \<open>error + 'a\<close>.
\<close>

type_synonym byte = "8 word"
type_synonym ByteArray = "byte list"

datatype error =
    Exception string
  | KeyLengthException string
  | AssertionError
  | AttributeError
  | TypeError
  | OverflowError
  | IndexError
  | ParameterRangeError

text \<open>
  Modelled from the spec: the opcode constants of \<open>crypto.opcode\<close>, which is not among the
  sources. The spec names the standard opcode table (OP_0, OP_1..OP_16, OP_DATA_1..75,
  OP_PUSHDATA1/2/4, OP_DUP, OP_HASH160, OP_EQUAL, OP_EQUALVERIFY, OP_CHECKSIG,
  OP_CHECKMULTISIG and four stake-tagging opcodes); the values are those of that table, and
  the script literals of \<open>test_extract_script_addrs\<close> agree with them.
\<close>

definition OP_0 :: byte where "OP_0 = 0x00"
definition OP_DATA_1 :: byte where "OP_DATA_1 = 0x01"
definition OP_DATA_20 :: byte where "OP_DATA_20 = 0x14"
definition OP_DATA_33 :: byte where "OP_DATA_33 = 0x21"
definition OP_DATA_65 :: byte where "OP_DATA_65 = 0x41"
definition OP_DATA_75 :: byte where "OP_DATA_75 = 0x4b"
definition OP_PUSHDATA1 :: byte where "OP_PUSHDATA1 = 0x4c"
definition OP_PUSHDATA2 :: byte where "OP_PUSHDATA2 = 0x4d"
definition OP_PUSHDATA4 :: byte where "OP_PUSHDATA4 = 0x4e"
definition OP_1 :: byte where "OP_1 = 0x51"
definition OP_16 :: byte where "OP_16 = 0x60"
definition OP_DUP :: byte where "OP_DUP = 0x76"
definition OP_EQUAL :: byte where "OP_EQUAL = 0x87"
definition OP_EQUALVERIFY :: byte where "OP_EQUALVERIFY = 0x88"
definition OP_HASH160 :: byte where "OP_HASH160 = 0xa9"
definition OP_CHECKSIG :: byte where "OP_CHECKSIG = 0xac"
definition OP_CHECKMULTISIG :: byte where "OP_CHECKMULTISIG = 0xae"
definition OP_SSTX :: byte where "OP_SSTX = 0xba"
definition OP_SSGEN :: byte where "OP_SSGEN = 0xbb"
definition OP_SSRTX :: byte where "OP_SSRTX = 0xbc"
definition OP_SSTXCHANGE :: byte where "OP_SSTXCHANGE = 0xbd"

lemmas opcode_defs =
  OP_0_def OP_DATA_1_def OP_DATA_20_def OP_DATA_33_def OP_DATA_65_def OP_DATA_75_def
  OP_PUSHDATA1_def OP_PUSHDATA2_def OP_PUSHDATA4_def OP_1_def OP_16_def OP_DUP_def
  OP_EQUAL_def OP_EQUALVERIFY_def OP_HASH160_def OP_CHECKSIG_def OP_CHECKMULTISIG_def
  OP_SSTX_def OP_SSGEN_def OP_SSRTX_def OP_SSTXCHANGE_def

text \<open>
  Modelled from the spec: the \<open>length\<close> field of \<open>opcode.opcodeArray\<close> (not among the
  sources). Section 4.4 of the spec: an opcode has fixed length 1 (no payload), fixed length
  greater than 1 (OP_DATA_n: the opcode and its \<open>n\<close> payload bytes), or a negative length
  (PUSHDATA1/2/4: the following 1/2/4 bytes hold the payload length).
\<close>

definition opcode_length :: "byte \<Rightarrow> int" where
  "opcode_length b =
     (if OP_DATA_1 \<le> b \<and> b \<le> OP_DATA_75 then int (unat b) + 1
      else if b = OP_PUSHDATA1 then - 1
      else if b = OP_PUSHDATA2 then - 2
      else if b = OP_PUSHDATA4 then - 4
      else 1)"

text \<open>\<open>ByteArray.unLittle().int()\<close>: the integer a little-endian byte sequence encodes.\<close>

fun unLittle_int :: "ByteArray \<Rightarrow> nat" where
  "unLittle_int [] = 0"
| "unLittle_int (b # bs) = unat b + 256 * unLittle_int bs"

section \<open>ScriptTokenizer\<close>

record ScriptTokenizer =
  tk_script :: ByteArray
  tk_version :: int
  tk_offset :: nat
  tk_op :: "byte option"
  tk_d :: "ByteArray option"
  tk_err :: "error option"

definition ScriptTokenizer_init :: "int \<Rightarrow> ByteArray \<Rightarrow> ScriptTokenizer" where
  "ScriptTokenizer_init ver scr =
     \<lparr>tk_script = scr, tk_version = ver, tk_offset = 0, tk_op = None, tk_d = None,
      tk_err = None\<rparr>"

definition tokenizer_done :: "ScriptTokenizer \<Rightarrow> bool" where
  "tokenizer_done t \<longleftrightarrow> tk_err t \<noteq> None \<or> tk_offset t \<ge> length (tk_script t)"

definition byteIndex :: "ScriptTokenizer \<Rightarrow> nat" where
  "byteIndex t = tk_offset t"

text \<open>
  \<open>ScriptTokenizer.next\<close>: the returned boolean and the tokenizer after the call; \<open>Inl\<close>
  is the final \<open>raise Exception("unreachable")\<close>. The branches are those of the source, in
  its order. In the last branch (OP_PUSHDATA1/2/4) the source ends with \<open>return False\<close>
  after it has moved the offset and stored the opcode and data, and so does the model. A
  decoded data length is never negative, so of the source's test
  \<open>dataLen > len(script) or dataLen < 0\<close> only the first half can hold.
\<close>

definition tokenizer_next :: "ScriptTokenizer \<Rightarrow> error + (bool \<times> ScriptTokenizer)" where
  "tokenizer_next t =
     (if tokenizer_done t then Inr (False, t)
      else
        let opc = tk_script t ! tk_offset t; l = opcode_length opc in
        if l = 1 then
          Inr (True, t\<lparr>tk_offset := tk_offset t + 1, tk_op := Some opc, tk_d := Some []\<rparr>)
        else if l > 1 then
          (let scr = drop (tk_offset t) (tk_script t) in
           if int (length scr) < l then
             Inr (False, t\<lparr>tk_err := Some (Exception ''opcode requires more bytes than the script has remaining'')\<rparr>)
           else
             Inr (True, t\<lparr>tk_offset := tk_offset t + nat l, tk_op := Some opc,
                          tk_d := Some (take (nat l - 1) (drop 1 scr))\<rparr>))
        else if l < 0 then
          (let scr = drop (tk_offset t + 1) (tk_script t) in
           if int (length scr) < - l then
             Inr (False, t\<lparr>tk_err := Some (Exception ''opcode requires more bytes than the script has remaining'')\<rparr>)
           else
             (case (if l = - 1 then Some (unat (scr ! 0))
                    else if l = - 2 then Some (unLittle_int (take 2 scr))
                    else if l = - 4 then Some (unLittle_int (take 4 scr))
                    else None) of
                None \<Rightarrow> Inr (False, t\<lparr>tk_err := Some (Exception ''invalid opcode length'')\<rparr>)
              | Some dataLen \<Rightarrow>
                  (let scr2 = drop (nat (- l)) scr in
                   if dataLen > length scr2 then
                     Inr (False, t\<lparr>tk_err := Some (Exception ''opcode pushes more bytes than the script has remaining'')\<rparr>)
                   else
                     Inr (False, t\<lparr>tk_offset := tk_offset t + 1 + nat (- l) + dataLen,
                                   tk_op := Some opc, tk_d := Some (take dataLen scr2)\<rparr>))))
        else Inl (Exception ''unreachable''))"

text \<open>
  A token as the spec's data model has it: the opcode, the pushed data and the byte offset
  after the token, read from the tokenizer after a \<open>next()\<close> that returned \<open>True\<close>.
\<close>

record ScriptToken =
  opcode :: "byte option"
  pushedData :: "ByteArray option"
  byteOffsetAfterToken :: nat

definition current_token :: "ScriptTokenizer \<Rightarrow> ScriptToken" where
  "current_token t =
     \<lparr>opcode = tk_op t, pushedData = tk_d t, byteOffsetAfterToken = byteIndex t\<rparr>"

lemma tokenizer_next_True:
  assumes "tokenizer_next t = Inr (True, t')"
  shows "tk_offset t < tk_offset t' \<and> tk_offset t < length (tk_script t)
         \<and> tk_script t' = tk_script t"
  using assms
  by (auto simp: tokenizer_next_def tokenizer_done_def Let_def
           split: if_splits option.splits)

text \<open>
  The loop \<open>while tokenizer.next(): ...\<close>, collecting the token of every iteration. It
  returns the tokens and the tokenizer as the loop leaves it.
\<close>

function tokenize_loop ::
  "ScriptTokenizer \<Rightarrow> ScriptToken list \<Rightarrow> error + (ScriptToken list \<times> ScriptTokenizer)" where
  "tokenize_loop t acc =
     (case tokenizer_next t of
        Inl e \<Rightarrow> Inl e
      | Inr r \<Rightarrow>
          if fst r then tokenize_loop (snd r) (acc @ [current_token (snd r)])
          else Inr (acc, snd r))"
  by pat_completeness auto
termination
proof (relation "measure (\<lambda>(t, acc). length (tk_script t) - tk_offset t)")
  show "wf (measure (\<lambda>(t, acc). length (tk_script t) - tk_offset t))" by simp
next
  fix t :: ScriptTokenizer and acc :: "ScriptToken list" and r
  assume a: "tokenizer_next t = Inr r" "fst r"
  then have "tokenizer_next t = Inr (True, snd r)"
    by (cases r) simp
  from tokenizer_next_True [OF this]
  show "((snd r, acc @ [current_token (snd r)]), (t, acc))
        \<in> measure (\<lambda>(t, acc). length (tk_script t) - tk_offset t)"
    by auto
qed

declare tokenize_loop.simps [simp del]

definition tokenize :: "int \<Rightarrow> ByteArray \<Rightarrow> error + (ScriptToken list \<times> ScriptTokenizer)" where
  "tokenize ver scr = tokenize_loop (ScriptTokenizer_init ver scr) []"

text \<open>The byte lengths of the tokens: the differences of consecutive offsets.\<close>

fun token_lengths :: "nat \<Rightarrow> ScriptToken list \<Rightarrow> nat list" where
  "token_lengths start [] = []"
| "token_lengths start (k # ks) =
     (byteOffsetAfterToken k - start) # token_lengths (byteOffsetAfterToken k) ks"

text \<open>\<open>checkScriptParses\<close>: run the tokenizer to its end and return its error field.\<close>

definition checkScriptParses :: "int \<Rightarrow> ByteArray \<Rightarrow> error + error option" where
  "checkScriptParses scriptVersion scr =
     (case tokenize scriptVersion scr of
        Inl e \<Rightarrow> Inl e
      | Inr r \<Rightarrow> Inr (tk_err (snd r)))"

section \<open>ScriptClassifier\<close>

datatype ScriptClass =
    NonStandardTy
  | PubKeyTy
  | PubKeyHashTy
  | ScriptHashTy
  | MultiSigTy
  | NullDataTy
  | StakeSubmissionTy
  | StakeGenTy
  | StakeRevocationTy
  | StakeSubChangeTy
  | PubkeyAltTy
  | PubkeyHashAltTy

text \<open>
  The extraction functions return \<open>None\<close> where the source returns \<open>None\<close>. Python's
  \<open>and\<close> evaluates left to right and stops at the first false operand, so every index is
  read only after the length test has passed.
\<close>

definition extractPubKeyHash :: "ByteArray \<Rightarrow> ByteArray option" where
  "extractPubKeyHash scr =
     (if length scr = 25 \<and> scr ! 0 = OP_DUP \<and> scr ! 1 = OP_HASH160
         \<and> scr ! 2 = OP_DATA_20 \<and> scr ! 23 = OP_EQUALVERIFY \<and> scr ! 24 = OP_CHECKSIG
      then Some (take 20 (drop 3 scr)) else None)"

definition extractScriptHash :: "ByteArray \<Rightarrow> ByteArray option" where
  "extractScriptHash pkScript =
     (if length pkScript = 23 \<and> pkScript ! 0 = OP_HASH160 \<and> pkScript ! 1 = OP_DATA_20
         \<and> pkScript ! 22 = OP_EQUAL
      then Some (take 20 (drop 2 pkScript)) else None)"

definition extractCompressedPubKey :: "ByteArray \<Rightarrow> ByteArray option" where
  "extractCompressedPubKey scr =
     (if length scr = 35 \<and> scr ! 34 = OP_CHECKSIG \<and> scr ! 0 = OP_DATA_33
         \<and> (scr ! 1 = 0x02 \<or> scr ! 1 = 0x03)
      then Some (take 33 (drop 1 scr)) else None)"

definition extractUncompressedPubKey :: "ByteArray \<Rightarrow> ByteArray option" where
  "extractUncompressedPubKey scr =
     (if length scr = 67 \<and> scr ! 66 = OP_CHECKSIG \<and> scr ! 0 = OP_DATA_65 \<and> scr ! 1 = 0x04
      then Some (take 65 (drop 1 scr)) else None)"

definition extractPubKey :: "ByteArray \<Rightarrow> ByteArray option" where
  "extractPubKey scr =
     (case extractCompressedPubKey scr of
        Some pubkey \<Rightarrow> Some pubkey
      | None \<Rightarrow> extractUncompressedPubKey scr)"

definition extractStakeScriptHash :: "ByteArray \<Rightarrow> byte \<Rightarrow> ByteArray option" where
  "extractStakeScriptHash scr stakeOpcode =
     (if length scr = 24 \<and> scr ! 0 = stakeOpcode \<and> scr ! 1 = OP_HASH160
         \<and> scr ! 2 = OP_DATA_20 \<and> scr ! 23 = OP_EQUAL
      then Some (take 20 (drop 3 scr)) else None)"

definition extractStakePubKeyHash :: "ByteArray \<Rightarrow> byte \<Rightarrow> ByteArray option" where
  "extractStakePubKeyHash scr stakeOpcode =
     (if length scr < 1 \<or> scr ! 0 \<noteq> stakeOpcode then None
      else extractPubKeyHash (drop 1 scr))"

definition isSmallInt :: "byte \<Rightarrow> bool" where
  "isSmallInt b \<longleftrightarrow> b = OP_0 \<or> (b \<ge> OP_1 \<and> b \<le> OP_16)"

definition asSmallInt :: "byte \<Rightarrow> int" where
  "asSmallInt b = (if b = OP_0 then 0 else int (unat b) - (int (unat OP_1) - 1))"

definition isStrictPubKeyEncoding :: "ByteArray \<Rightarrow> bool" where
  "isStrictPubKeyEncoding pubKey \<longleftrightarrow>
     (if length pubKey = 33 \<and> (pubKey ! 0 = 0x02 \<or> pubKey ! 0 = 0x03) then True
      else if length pubKey = 65 \<and> pubKey ! 0 = 0x04 then True
      else False)"

text \<open>
  \<open>multiSigDetails\<close>. The source's \<open>invalidMSDetails\<close> stores an empty list in
  \<open>requiredSigs\<close>; no caller reads the field when \<open>valid\<close> is false, and the model
  stores 0 there.
\<close>

record multiSigDetails =
  requiredSigs :: int
  numPubKeys :: nat
  pubKeys :: "ByteArray list"
  valid :: bool

definition invalidMSDetails :: multiSigDetails where
  "invalidMSDetails = \<lparr>requiredSigs = 0, numPubKeys = 0, pubKeys = [], valid = False\<rparr>"

text \<open>
  The loop of \<open>extractMultisigScriptDetails\<close> over the public keys: it leaves the
  tokenizer, the number of keys and the keys collected.
\<close>

function pubkey_loop ::
  "bool \<Rightarrow> ScriptTokenizer \<Rightarrow> nat \<Rightarrow> ByteArray list
   \<Rightarrow> error + (ScriptTokenizer \<times> nat \<times> ByteArray list)" where
  "pubkey_loop extractPubKeys t numPubkeys pubkeys =
     (case tokenizer_next t of
        Inl e \<Rightarrow> Inl e
      | Inr r \<Rightarrow>
          if fst r then
            (let dat = (case tk_d (snd r) of None \<Rightarrow> [] | Some x \<Rightarrow> x) in
             if isStrictPubKeyEncoding dat then
               pubkey_loop extractPubKeys (snd r) (numPubkeys + 1)
                 (if extractPubKeys then pubkeys @ [dat] else pubkeys)
             else Inr (snd r, numPubkeys, pubkeys))
          else Inr (snd r, numPubkeys, pubkeys))"
  by pat_completeness auto
termination
proof (relation "measure (\<lambda>(e, t, n, ks). length (tk_script t) - tk_offset t)")
  show "wf (measure (\<lambda>(e, t, n, ks). length (tk_script t) - tk_offset t))" by simp
next
  fix extractPubKeys t numPubkeys and pubkeys :: "ByteArray list" and r dat
  assume a: "tokenizer_next t = Inr r" "fst r"
  then have "tokenizer_next t = Inr (True, snd r)"
    by (cases r) simp
  from tokenizer_next_True [OF this]
  show "((extractPubKeys, snd r, numPubkeys + 1,
          if extractPubKeys then pubkeys @ [dat] else pubkeys),
         (extractPubKeys, t, numPubkeys, pubkeys))
        \<in> measure (\<lambda>(e, t, n, ks). length (tk_script t) - tk_offset t)"
    by auto
qed

declare pubkey_loop.simps [simp del]

definition extractMultisigScriptDetails ::
  "int \<Rightarrow> ByteArray \<Rightarrow> bool \<Rightarrow> error + multiSigDetails" where
  "extractMultisigScriptDetails scriptVersion scr extractPubKeys =
     (if scriptVersion \<noteq> 0 then Inr invalidMSDetails
      else if length scr < 3 \<or> scr ! (length scr - 1) \<noteq> OP_CHECKMULTISIG
      then Inr invalidMSDetails
      else
        (case tokenizer_next (ScriptTokenizer_init scriptVersion scr) of
           Inl e \<Rightarrow> Inl e
         | Inr r \<Rightarrow>
             (case (if fst r then tk_op (snd r) else None) of
                None \<Rightarrow> Inr invalidMSDetails
              | Some op1 \<Rightarrow>
                  if isSmallInt op1 then
                    (case pubkey_loop extractPubKeys (snd r) 0 [] of
                       Inl e \<Rightarrow> Inl e
                     | Inr (t, numPubkeys, pubkeys) \<Rightarrow>
                         if tokenizer_done t then Inr invalidMSDetails
                         else
                           (case tk_op t of
                              None \<Rightarrow> Inr invalidMSDetails
                            | Some op2 \<Rightarrow>
                                if isSmallInt op2 \<and> asSmallInt op2 = int numPubkeys then
                                  (if int (length (tk_script t)) - int (byteIndex t) \<noteq> 1
                                   then Inr invalidMSDetails
                                   else Inr \<lparr>requiredSigs = asSmallInt op1,
                                             numPubKeys = numPubkeys, pubKeys = pubkeys,
                                             valid = True\<rparr>)
                                else Inr invalidMSDetails))
                  else Inr invalidMSDetails)))"

text \<open>
  What the source hands to an address constructor: a byte array, or (in the two
  stake-submission branches of \<open>extractPkScriptAddrs\<close>, which pass the name \<open>hash\<close>
  and never bind it) Python's builtin function \<open>hash\<close>.
\<close>

datatype pyobj = PyByteArray ByteArray | PyBuiltinHash

text \<open>
  The address constructors belong to \<open>crypto\<close> and to the curve module, which are not among
  the sources; they are parameters of the model. \<open>newAddressPubKeyHash\<close> stands for
  \<open>crypto.newAddressPubKeyHash(_, params, crypto.STEcdsaSecp256k1)\<close>,
  \<open>newAddressScriptHashFromHash\<close> for the function of that name, and
  \<open>addressSecpPubKey\<close> for
  \<open>crypto.AddressSecpPubKey(Curve.parsePubKey(_).serializeCompressed(), params)\<close>. Each may
  raise.
\<close>

record ('net, 'addr) crypto =
  newAddressPubKeyHash :: "pyobj \<Rightarrow> 'net \<Rightarrow> error + 'addr"
  newAddressScriptHashFromHash :: "pyobj \<Rightarrow> 'net \<Rightarrow> error + 'addr"
  addressSecpPubKey :: "ByteArray \<Rightarrow> 'net \<Rightarrow> error + 'addr"

definition pubKeyHashToAddrs ::
  "('net, 'addr) crypto \<Rightarrow> pyobj \<Rightarrow> 'net \<Rightarrow> error + 'addr list" where
  "pubKeyHashToAddrs c pkHash params =
     (case newAddressPubKeyHash c pkHash params of Inl e \<Rightarrow> Inl e | Inr a \<Rightarrow> Inr [a])"

definition scriptHashToAddrs ::
  "('net, 'addr) crypto \<Rightarrow> pyobj \<Rightarrow> 'net \<Rightarrow> error + 'addr list" where
  "scriptHashToAddrs c scriptHash params =
     (case newAddressScriptHashFromHash c scriptHash params of
        Inl e \<Rightarrow> Inl e | Inr a \<Rightarrow> Inr [a])"

text \<open>The loop over \<open>details.pubKeys\<close>: it stops at the first key that raises.\<close>

fun pubKeysToAddrs ::
  "('net, 'addr) crypto \<Rightarrow> 'net \<Rightarrow> ByteArray list \<Rightarrow> 'addr list \<Rightarrow> error + 'addr list" where
  "pubKeysToAddrs c params [] addrs = Inr addrs"
| "pubKeysToAddrs c params (encodedPK # ks) addrs =
     (case addressSecpPubKey c encodedPK params of
        Inl e \<Rightarrow> Inl e
      | Inr a \<Rightarrow> pubKeysToAddrs c params ks (addrs @ [a]))"

text \<open>A successful return of \<open>extractPkScriptAddrs\<close>: class, addresses, required signatures.\<close>

definition returns ::
  "ScriptClass \<Rightarrow> error + 'addr list \<Rightarrow> int \<Rightarrow> error + (ScriptClass \<times> 'addr list \<times> int)" where
  "returns cls addrs n = (case addrs of Inl e \<Rightarrow> Inl e | Inr as \<Rightarrow> Inr (cls, as, n))"

text \<open>
  \<open>extractPkScriptAddrs\<close>, pattern by pattern in the source's order. An extracted hash or
  key is a non-empty byte array, so the source's truth tests \<open>if pkHash:\<close> hold exactly
  when the extraction did not return \<open>None\<close>. The stake-submission branches pass
  \<open>hash\<close>, as the source does; the other stake branches pass the extracted value.
\<close>

definition extractPkScriptAddrs ::
  "('net, 'addr) crypto \<Rightarrow> int \<Rightarrow> ByteArray \<Rightarrow> 'net
   \<Rightarrow> error + (ScriptClass \<times> 'addr list \<times> int)" where
  "extractPkScriptAddrs c ver pkScript chainParams =
    (if ver \<noteq> 0 then Inl (Exception ''invalid script version'')
     else case extractPubKeyHash pkScript of
       Some pkHash \<Rightarrow> returns PubKeyHashTy (pubKeyHashToAddrs c (PyByteArray pkHash) chainParams) 1
     | None \<Rightarrow>
     (case extractScriptHash pkScript of
       Some scriptHash \<Rightarrow>
         returns ScriptHashTy (scriptHashToAddrs c (PyByteArray scriptHash) chainParams) 1
     | None \<Rightarrow>
     (case extractPubKey pkScript of
       Some dat \<Rightarrow> returns PubKeyTy (pubKeysToAddrs c chainParams [dat] []) 1
     | None \<Rightarrow>
     (case extractMultisigScriptDetails ver pkScript True of
       Inl e \<Rightarrow> Inl e
     | Inr details \<Rightarrow>
     if valid details then
       returns MultiSigTy (pubKeysToAddrs c chainParams (pubKeys details) [])
         (requiredSigs details)
     else
     (case extractStakePubKeyHash pkScript OP_SSTX of
       Some pkHash \<Rightarrow> returns StakeSubmissionTy (pubKeyHashToAddrs c PyBuiltinHash chainParams) 1
     | None \<Rightarrow>
     (case extractStakeScriptHash pkScript OP_SSTX of
       Some scriptHash \<Rightarrow>
         returns StakeSubmissionTy (scriptHashToAddrs c PyBuiltinHash chainParams) 1
     | None \<Rightarrow>
     (case extractStakePubKeyHash pkScript OP_SSGEN of
       Some pkHash \<Rightarrow> returns StakeGenTy (pubKeyHashToAddrs c (PyByteArray pkHash) chainParams) 1
     | None \<Rightarrow>
     (case extractStakeScriptHash pkScript OP_SSGEN of
       Some scriptHash \<Rightarrow>
         returns StakeGenTy (scriptHashToAddrs c (PyByteArray scriptHash) chainParams) 1
     | None \<Rightarrow>
     (case extractStakePubKeyHash pkScript OP_SSRTX of
       Some pkHash \<Rightarrow>
         returns StakeRevocationTy (pubKeyHashToAddrs c (PyByteArray pkHash) chainParams) 1
     | None \<Rightarrow>
     (case extractStakeScriptHash pkScript OP_SSRTX of
       Some scriptHash \<Rightarrow>
         returns StakeRevocationTy (scriptHashToAddrs c (PyByteArray scriptHash) chainParams) 1
     | None \<Rightarrow>
     (case extractStakePubKeyHash pkScript OP_SSTXCHANGE of
       Some pkHash \<Rightarrow>
         returns StakeSubChangeTy (pubKeyHashToAddrs c (PyByteArray pkHash) chainParams) 1
     | None \<Rightarrow>
     (case extractStakeScriptHash pkScript OP_SSTXCHANGE of
       Some scriptHash \<Rightarrow>
         returns StakeSubChangeTy (scriptHashToAddrs c (PyByteArray scriptHash) chainParams) 1
     | None \<Rightarrow> Inl (Exception ''unsupported script'')))))))))))))"

section \<open>Tokenizer: iteration over a script\<close>

lemma tokenizer_next_pushdata_False:
  assumes "tokenizer_next t = Inr (b, t')"
    and "opcode_length (tk_script t ! tk_offset t) < 0"
  shows "\<not> b"
  using assms
  by (auto simp: tokenizer_next_def Let_def split: if_splits option.splits)

lemma tokenize_p2pkh_example:
  "tokenize 0 ([OP_DUP, OP_HASH160, OP_DATA_20] @ replicate 20 0x01 @ [OP_EQUALVERIFY, OP_CHECKSIG])
   = Inr ([\<lparr>opcode = Some OP_DUP, pushedData = Some [], byteOffsetAfterToken = 1\<rparr>,
           \<lparr>opcode = Some OP_HASH160, pushedData = Some [], byteOffsetAfterToken = 2\<rparr>,
           \<lparr>opcode = Some OP_DATA_20, pushedData = Some (replicate 20 0x01),
              byteOffsetAfterToken = 23\<rparr>,
           \<lparr>opcode = Some OP_EQUALVERIFY, pushedData = Some [], byteOffsetAfterToken = 24\<rparr>,
           \<lparr>opcode = Some OP_CHECKSIG, pushedData = Some [], byteOffsetAfterToken = 25\<rparr>],
          \<lparr>tk_script = [OP_DUP, OP_HASH160, OP_DATA_20] @ replicate 20 0x01
                          @ [OP_EQUALVERIFY, OP_CHECKSIG],
             tk_version = 0, tk_offset = 25, tk_op = Some OP_CHECKSIG, tk_d = Some [],
             tk_err = None\<rparr>)"
  by code_simp

text \<open>
  Claim C1. For every well-formed script, calling \<open>next()\<close> until it returns \<open>False\<close>
  yields tokens whose lengths sum to the script length, with \<open>byteIndex()\<close> equal to the
  script length and no error recorded, also when an OP_PUSHDATA1/2/4 opcode is followed by
  further opcodes.

  The code does not do this. The script \<open>OP_PUSHDATA1 0x01 0xaa OP_1\<close> (four bytes: a
  one-byte push followed by OP_1) parses without an error, but the call of \<open>next()\<close> that
  parses the push returns \<open>False\<close>: the loop ends with no token produced, the token lengths
  sum to 0, and \<open>byteIndex()\<close> is 3 with no error recorded.
\<close>

theorem C1_pushdata_ends_iteration:
  "(case tokenize 0 [OP_PUSHDATA1, 0x01, 0xaa, OP_1] of
      Inl e \<Rightarrow> None
    | Inr (toks, t) \<Rightarrow>
        Some (toks, sum_list (token_lengths 0 toks), byteIndex t, tk_err t, tk_op t, tk_d t))
   = Some ([], 0, 3, None, Some OP_PUSHDATA1, Some [0xaa])
   \<and> length [OP_PUSHDATA1, 0x01, 0xaa, OP_1] = 4"
  by code_simp

section \<open>Classifier: the stake-submission branches\<close>

lemma extractPubKeyHash_p2pkh:
  assumes "length h = 20"
  shows "extractPubKeyHash ([OP_DUP, OP_HASH160, OP_DATA_20] @ h @ [OP_EQUALVERIFY, OP_CHECKSIG])
         = Some h"
  using assms by (simp add: extractPubKeyHash_def nth_append)

lemma extractPkScriptAddrs_sstx_p2pkh:
  assumes "length h = 20"
  shows "extractPkScriptAddrs c 0
           (OP_SSTX # [OP_DUP, OP_HASH160, OP_DATA_20] @ h @ [OP_EQUALVERIFY, OP_CHECKSIG]) net
         = returns StakeSubmissionTy (pubKeyHashToAddrs c PyBuiltinHash net) 1"
proof -
  let ?p = "[OP_DUP, OP_HASH160, OP_DATA_20] @ h @ [OP_EQUALVERIFY, OP_CHECKSIG]"
  let ?s = "OP_SSTX # ?p"
  have len: "length ?s = 26" using assms by simp
  have a: "extractPubKeyHash ?s = None" using len by (simp add: extractPubKeyHash_def)
  have b: "extractScriptHash ?s = None" using len by (simp add: extractScriptHash_def)
  have c: "extractPubKey ?s = None"
    using len
    by (simp add: extractPubKey_def extractCompressedPubKey_def extractUncompressedPubKey_def)
  have "?s ! (length ?s - 1) = OP_CHECKSIG"
    using assms by (simp add: nth_append)
  then have d: "extractMultisigScriptDetails 0 ?s True = Inr invalidMSDetails"
    by (simp add: extractMultisigScriptDetails_def opcode_defs)
  have e: "extractStakePubKeyHash ?s OP_SSTX = Some h"
    using extractPubKeyHash_p2pkh [OF assms] by (simp add: extractStakePubKeyHash_def)
  show ?thesis
    unfolding extractPkScriptAddrs_def
    by (simp only: a b c d e) (simp add: invalidMSDetails_def)
qed

lemma extractPkScriptAddrs_ssgen_p2pkh:
  assumes "length h = 20"
  shows "extractPkScriptAddrs c 0
           (OP_SSGEN # [OP_DUP, OP_HASH160, OP_DATA_20] @ h @ [OP_EQUALVERIFY, OP_CHECKSIG]) net
         = returns StakeGenTy (pubKeyHashToAddrs c (PyByteArray h) net) 1"
proof -
  let ?p = "[OP_DUP, OP_HASH160, OP_DATA_20] @ h @ [OP_EQUALVERIFY, OP_CHECKSIG]"
  let ?s = "OP_SSGEN # ?p"
  have len: "length ?s = 26" using assms by simp
  have a: "extractPubKeyHash ?s = None" using len by (simp add: extractPubKeyHash_def)
  have b: "extractScriptHash ?s = None" using len by (simp add: extractScriptHash_def)
  have c: "extractPubKey ?s = None"
    using len
    by (simp add: extractPubKey_def extractCompressedPubKey_def extractUncompressedPubKey_def)
  have "?s ! (length ?s - 1) = OP_CHECKSIG"
    using assms by (simp add: nth_append)
  then have d: "extractMultisigScriptDetails 0 ?s True = Inr invalidMSDetails"
    by (simp add: extractMultisigScriptDetails_def opcode_defs)
  have e: "extractStakePubKeyHash ?s OP_SSTX = None"
    by (simp add: extractStakePubKeyHash_def opcode_defs)
  have f: "extractStakeScriptHash ?s OP_SSTX = None"
    using len by (simp add: extractStakeScriptHash_def)
  have g: "extractStakePubKeyHash ?s OP_SSGEN = Some h"
    using extractPubKeyHash_p2pkh [OF assms] by (simp add: extractStakePubKeyHash_def)
  show ?thesis
    unfolding extractPkScriptAddrs_def
    by (simp only: a b c d e f g) (simp add: invalidMSDetails_def)
qed

lemma extractPkScriptAddrs_sstx_p2sh:
  assumes "length h = 20"
  shows "extractPkScriptAddrs c 0 (OP_SSTX # [OP_HASH160, OP_DATA_20] @ h @ [OP_EQUAL]) net
         = returns StakeSubmissionTy (scriptHashToAddrs c PyBuiltinHash net) 1"
proof -
  let ?s = "OP_SSTX # [OP_HASH160, OP_DATA_20] @ h @ [OP_EQUAL]"
  have len: "length ?s = 24" using assms by simp
  have a: "extractPubKeyHash ?s = None" using len by (simp add: extractPubKeyHash_def)
  have b: "extractScriptHash ?s = None" using len by (simp add: extractScriptHash_def)
  have c: "extractPubKey ?s = None"
    using len
    by (simp add: extractPubKey_def extractCompressedPubKey_def extractUncompressedPubKey_def)
  have "?s ! (length ?s - 1) = OP_EQUAL"
    using assms by (simp add: nth_append)
  then have d: "extractMultisigScriptDetails 0 ?s True = Inr invalidMSDetails"
    by (simp add: extractMultisigScriptDetails_def opcode_defs)
  have e: "extractStakePubKeyHash ?s OP_SSTX = None"
    using len by (simp add: extractStakePubKeyHash_def extractPubKeyHash_def)
  have f: "extractStakeScriptHash ?s OP_SSTX = Some h"
    using assms by (simp add: extractStakeScriptHash_def nth_append)
  show ?thesis
    unfolding extractPkScriptAddrs_def
    by (simp only: a b c d e f) (simp add: invalidMSDetails_def)
qed

text \<open>
  Claim C2. For every stake-submission-tagged pay-to-pubkey-hash script (OP_SSTX followed
  by the P2PKH template) at version 0, \<open>extractPkScriptAddrs\<close> returns class
  \<open>StakeSubmissionTy\<close>, one pay-to-pubkey-hash address constructed from the 20-byte hash
  extracted from the script, and required-signatures 1; likewise for the OP_SSTX-tagged
  pay-to-script-hash form.

  The code does not do this. On the OP_SSTX-tagged P2PKH script and the OP_SSTX-tagged P2SH
  script whose hash is twenty bytes \<open>0x01\<close>, the address constructor is handed Python's
  builtin \<open>hash\<close>, not the hash extracted from the script: whatever the constructors are,
  the result is the one they give for \<open>hash\<close>.
\<close>

theorem C2_stake_submission_passes_builtin_hash:
  "extractPkScriptAddrs c 0
     (OP_SSTX # [OP_DUP, OP_HASH160, OP_DATA_20] @ replicate 20 0x01
        @ [OP_EQUALVERIFY, OP_CHECKSIG]) net
   = returns StakeSubmissionTy (pubKeyHashToAddrs c PyBuiltinHash net) 1
   \<and> extractPkScriptAddrs c 0
       (OP_SSTX # [OP_HASH160, OP_DATA_20] @ replicate 20 0x01 @ [OP_EQUAL]) net
     = returns StakeSubmissionTy (scriptHashToAddrs c PyBuiltinHash net) 1"
  using extractPkScriptAddrs_sstx_p2pkh [of "replicate 20 0x01" c net]
    extractPkScriptAddrs_sstx_p2sh [of "replicate 20 0x01" c net]
  by simp

section \<open>ByteArray and Signature\<close>

text \<open>
  Modelled from the spec: the class \<open>ByteArray\<close> of \<open>crypto.bytearray\<close>, which is not
  among the sources. \<open>ByteArray(v)\<close> of a non-negative integer is its big-endian byte
  sequence without leading zeros (none at all for 0: \<open>canonicalizeInt\<close> tests for the empty
  array), and \<open>ByteArray(v, length=n)\<close> pads it on the left with zeros to \<open>n\<close> bytes. What
  the constructor does with a negative integer, or with one that does not fit \<open>n\<close> bytes,
  the sources do not say: there the model calls its parameter \<open>other\<close>.
\<close>

function bytes_of_nat :: "nat \<Rightarrow> ByteArray" where
  "bytes_of_nat n = (if n = 0 then [] else bytes_of_nat (n div 256) @ [of_nat (n mod 256)])"
  by pat_completeness auto
termination
  by (relation "measure id") auto

declare bytes_of_nat.simps [simp del]

text \<open>The integer a big-endian byte sequence encodes (\<open>int.from_bytes(_, "big")\<close>).\<close>

definition nat_of_bytes :: "ByteArray \<Rightarrow> nat" where
  "nat_of_bytes bs = foldl (\<lambda>a b. a * 256 + unat b) 0 bs"

definition ByteArray_len ::
  "(int \<Rightarrow> nat \<Rightarrow> error + ByteArray) \<Rightarrow> int \<Rightarrow> nat \<Rightarrow> error + ByteArray" where
  "ByteArray_len other v n =
     (if 0 \<le> v \<and> v < 256 ^ n
      then Inr (replicate (n - length (bytes_of_nat (nat v))) 0 @ bytes_of_nat (nat v))
      else other v n)"

definition ByteArray_int :: "(int \<Rightarrow> nat \<Rightarrow> error + ByteArray) \<Rightarrow> int \<Rightarrow> error + ByteArray" where
  "ByteArray_int other v = (if 0 \<le> v then Inr (bytes_of_nat (nat v)) else other v 0)"

text \<open>
  Modelled from the spec: \<open>a | b\<close> on byte arrays is the bytewise OR with \<open>b\<close> aligned to
  the right end of \<open>a\<close> (the sources use it with \<open>b\<close> no longer than \<open>a\<close>: to put a zero
  byte in front, and to set bits of a fixed-width field). \<open>b[k] = v\<close> writes the bytes
  \<open>v\<close> over \<open>b\<close> from position \<open>k\<close> on; an integer \<open>v\<close> is the one byte.
\<close>

definition ba_or :: "ByteArray \<Rightarrow> ByteArray \<Rightarrow> ByteArray" where
  "ba_or a b = map2 (OR) a (replicate (length a - length b) 0 @ b)"

definition ba_setitem :: "ByteArray \<Rightarrow> nat \<Rightarrow> ByteArray \<Rightarrow> ByteArray" where
  "ba_setitem b k v = take k b @ v @ drop (k + length v) b"

lemma nat_of_bytes_snoc: "nat_of_bytes (bs @ [b]) = nat_of_bytes bs * 256 + unat b"
  by (simp add: nat_of_bytes_def)

lemma nat_of_bytes_of_nat: "nat_of_bytes (bytes_of_nat n) = n"
proof (induction n rule: bytes_of_nat.induct)
  case (1 n)
  show ?case
  proof (cases "n = 0")
    case True
    then show ?thesis by (simp add: bytes_of_nat.simps nat_of_bytes_def)
  next
    case False
    have "unat (of_nat (n mod 256) :: byte) = n mod 256"
      by (simp add: unat_of_nat)
    with False 1 show ?thesis
      by (subst bytes_of_nat.simps) (simp add: nat_of_bytes_snoc)
  qed
qed

lemma nat_of_bytes_zero_Cons: "nat_of_bytes (0 # bs) = nat_of_bytes bs"
  by (simp add: nat_of_bytes_def)

lemma length_bytes_of_nat: "n < 256 ^ k \<Longrightarrow> length (bytes_of_nat n) \<le> k"
proof (induction k arbitrary: n)
  case 0
  then show ?case by (simp add: bytes_of_nat.simps)
next
  case (Suc k)
  show ?case
  proof (cases "n = 0")
    case True
    then show ?thesis by (simp add: bytes_of_nat.simps)
  next
    case False
    from Suc.prems have "n div 256 < 256 ^ k"
      by (simp add: less_mult_imp_div_less mult.commute)
    from Suc.IH [OF this] False show ?thesis
      by (subst bytes_of_nat.simps) simp
  qed
qed

lemma map2_or_zeros: "length b = n \<Longrightarrow> map2 (OR) (replicate n (0::byte)) b = b"
proof (induction b arbitrary: n)
  case Nil
  then show ?case by simp
next
  case (Cons x xs)
  then obtain m where "n = Suc m" by (cases n) auto
  with Cons show ?case by simp
qed

lemma ba_or_pad: "ba_or (replicate (length b + 1) 0) b = 0 # b"
  by (simp add: ba_or_def map2_or_zeros)

lemma ba_setitem_zeros:
  "k = length xs \<Longrightarrow> length v \<le> n \<Longrightarrow>
   ba_setitem (xs @ replicate n 0) k v = xs @ v @ replicate (n - length v) 0"
  by (simp add: ba_setitem_def)


text \<open>\<open>ByteArray(0, length=n)\<close>: \<open>n\<close> zero bytes.\<close>

definition zeros :: "nat \<Rightarrow> ByteArray" where
  "zeros n = replicate n 0"

text \<open>
  Modelled from the spec: \<open>Curve.N\<close>, the order of the curve (secp256k1), from a module
  that is not among the sources. \<open>accounts.py\<close> holds the same number as
  \<open>MAX_SECRET_INT\<close>.
\<close>

definition Curve_N :: int where
  "Curve_N = 115792089237316195423570985008687907852837564279074904382605163141518161494337"

definition canonicalizeInt ::
  "(int \<Rightarrow> nat \<Rightarrow> error + ByteArray) \<Rightarrow> int \<Rightarrow> error + ByteArray" where
  "canonicalizeInt other val =
     (case ByteArray_int other val of
        Inl e \<Rightarrow> Inl e
      | Inr b0 \<Rightarrow>
          (let b = (if length b0 = 0 then zeros 1 else b0);
               b = (if (b ! 0) AND 0x80 \<noteq> 0 then ba_or (zeros (length b + 1)) b else b)
           in Inr b))"

definition Signature_serialize ::
  "(int \<Rightarrow> nat \<Rightarrow> error + ByteArray) \<Rightarrow> int \<Rightarrow> int \<Rightarrow> error + ByteArray" where
  "Signature_serialize other r s =
     (let order = Curve_N;
          halforder = drop_bit 1 order;
          sigS = (if s > halforder then order - s else s)
      in
      case canonicalizeInt other r of Inl e \<Rightarrow> Inl e | Inr rb \<Rightarrow>
      (case canonicalizeInt other sigS of Inl e \<Rightarrow> Inl e | Inr sb \<Rightarrow>
      (let len = 6 + length rb + length sb;
           b = zeros len;
           b = ba_setitem b 0 [0x30]
       in
       case ByteArray_len other (int len - 2) 1 of Inl e \<Rightarrow> Inl e | Inr l1 \<Rightarrow>
       (let b = ba_setitem b 1 l1;
            b = ba_setitem b 2 [0x02]
        in
        case ByteArray_len other (int (length rb)) 1 of Inl e \<Rightarrow> Inl e | Inr l2 \<Rightarrow>
        (let b = ba_setitem b 3 l2;
             offset = 4;
             b = ba_setitem b offset rb;
             offset = offset + length rb;
             b = ba_setitem b offset [0x02];
             offset = offset + 1
         in
         case ByteArray_len other (int (length sb)) 1 of Inl e \<Rightarrow> Inl e | Inr l3 \<Rightarrow>
         (let b = ba_setitem b offset l3;
              offset = offset + 1;
              b = ba_setitem b offset sb
          in Inr b))))))"

text \<open>
  The shortest big-endian encoding with at least one byte, and the canonical form: a zero
  byte in front exactly when the first byte of the shortest encoding has its top bit set.
\<close>

definition min_bytes :: "nat \<Rightarrow> ByteArray" where
  "min_bytes n = (if n = 0 then [0] else bytes_of_nat n)"

definition canonical_bytes :: "nat \<Rightarrow> ByteArray" where
  "canonical_bytes n = (if bit (hd (min_bytes n)) 7 then 0 # min_bytes n else min_bytes n)"

lemma byte_and_0x80: "((x::byte) AND 0x80 \<noteq> 0) = bit x 7"
proof -
  have "(0x80 :: byte) = 2 ^ 7" by simp
  then show ?thesis
    by (simp only: and_exp_eq_0_iff_not_bit) simp
qed

lemma bytes_of_nat_Nil_iff: "bytes_of_nat n = [] \<longleftrightarrow> n = 0"
  by (subst bytes_of_nat.simps) simp

lemma min_bytes_not_Nil: "min_bytes n \<noteq> []"
  by (simp add: min_bytes_def bytes_of_nat_Nil_iff)

lemma canonicalizeInt_nonneg:
  assumes "0 \<le> v"
  shows "canonicalizeInt other v = Inr (canonical_bytes (nat v))"
proof (cases "v = 0")
  case True
  then show ?thesis
    by (simp add: canonicalizeInt_def ByteArray_int_def canonical_bytes_def min_bytes_def
        zeros_def bytes_of_nat.simps)
next
  case False
  with assms have nz: "nat v \<noteq> 0" by simp
  then have ne: "bytes_of_nat (nat v) \<noteq> []" by (simp add: bytes_of_nat_Nil_iff)
  then have hd: "bytes_of_nat (nat v) ! 0 = hd (bytes_of_nat (nat v))"
    by (simp add: hd_conv_nth)
  show ?thesis
    using assms nz ne
    by (simp add: canonicalizeInt_def ByteArray_int_def canonical_bytes_def min_bytes_def
        zeros_def Let_def hd byte_and_0x80 ba_or_pad [simplified])
qed

lemma nat_of_bytes_min: "nat_of_bytes (min_bytes n) = n"
proof (cases "n = 0")
  case True
  then show ?thesis by (simp add: min_bytes_def nat_of_bytes_def)
next
  case False
  then show ?thesis by (simp add: min_bytes_def nat_of_bytes_of_nat)
qed

lemma nat_of_bytes_canonical: "nat_of_bytes (canonical_bytes n) = n"
  by (simp add: canonical_bytes_def nat_of_bytes_min nat_of_bytes_zero_Cons)

lemma canonical_bytes_not_Nil: "canonical_bytes n \<noteq> []"
  by (simp add: canonical_bytes_def min_bytes_not_Nil)

lemma canonical_bytes_msb: "\<not> bit (hd (canonical_bytes n)) 7"
  by (simp add: canonical_bytes_def)

lemma length_canonical_bytes:
  assumes "n < 256 ^ k" "0 < k"
  shows "length (canonical_bytes n) \<le> k + 1"
  using length_bytes_of_nat [OF assms(1)] assms(2)
  by (simp add: canonical_bytes_def min_bytes_def)

lemma ByteArray_len_byte:
  "n < 256 \<Longrightarrow> ByteArray_len other (int n) 1 = Inr [of_nat n]"
proof (cases "n = 0")
  case True
  then show ?thesis by (simp add: ByteArray_len_def bytes_of_nat.simps)
next
  case False
  assume "n < 256"
  with False have "bytes_of_nat n = [of_nat n]"
    by (simp add: bytes_of_nat.simps [of n] bytes_of_nat.simps [of 0])
  with \<open>n < 256\<close> show ?thesis by (simp add: ByteArray_len_def)
qed

lemma serialize_layout:
  assumes "length rb + length sb < 250"
  shows "(let len = 6 + length rb + length sb;
           b = zeros len;
           b = ba_setitem b 0 [0x30];
           b = ba_setitem b 1 [l1];
           b = ba_setitem b 2 [0x02];
           b = ba_setitem b 3 [l2];
           offset = 4;
           b = ba_setitem b offset rb;
           offset = offset + length rb;
           b = ba_setitem b offset [0x02];
           offset = offset + 1;
           b = ba_setitem b offset [l3];
           offset = offset + 1;
           b = ba_setitem b offset sb
        in b) = [0x30, l1, 0x02, l2] @ rb @ [0x02, l3] @ sb"
proof -
  have a: "ba_setitem (zeros (6 + length rb + length sb)) 0 [0x30]
           = [0x30] @ replicate (5 + length rb + length sb) 0"
    by (simp add: ba_setitem_def zeros_def)
  have b: "ba_setitem ([0x30] @ replicate (5 + length rb + length sb) 0) 1 [l1]
           = [0x30, l1] @ replicate (4 + length rb + length sb) 0"
    by (subst ba_setitem_zeros) simp_all
  have c: "ba_setitem ([0x30, l1] @ replicate (4 + length rb + length sb) 0) 2 [0x02]
           = [0x30, l1, 0x02] @ replicate (3 + length rb + length sb) 0"
    by (subst ba_setitem_zeros) simp_all
  have d: "ba_setitem ([0x30, l1, 0x02] @ replicate (3 + length rb + length sb) 0) 3 [l2]
           = [0x30, l1, 0x02, l2] @ replicate (2 + length rb + length sb) 0"
    by (subst ba_setitem_zeros) simp_all
  have e: "ba_setitem ([0x30, l1, 0x02, l2] @ replicate (2 + length rb + length sb) 0) 4 rb
           = ([0x30, l1, 0x02, l2] @ rb) @ replicate (2 + length sb) 0"
    by (subst ba_setitem_zeros) simp_all
  have f: "ba_setitem (([0x30, l1, 0x02, l2] @ rb) @ replicate (2 + length sb) 0)
             (4 + length rb) [0x02]
           = ([0x30, l1, 0x02, l2] @ rb @ [0x02]) @ replicate (1 + length sb) 0"
    by (subst ba_setitem_zeros) simp_all
  have g: "ba_setitem (([0x30, l1, 0x02, l2] @ rb @ [0x02]) @ replicate (1 + length sb) 0)
             (4 + length rb + 1) [l3]
           = ([0x30, l1, 0x02, l2] @ rb @ [0x02, l3]) @ replicate (length sb) 0"
    by (subst ba_setitem_zeros) simp_all
  have h: "ba_setitem (([0x30, l1, 0x02, l2] @ rb @ [0x02, l3]) @ replicate (length sb) 0)
             (4 + length rb + 1 + 1) sb
           = [0x30, l1, 0x02, l2] @ rb @ [0x02, l3] @ sb"
    by (subst ba_setitem_zeros) simp_all
  show ?thesis
    unfolding Let_def by (simp only: a b c d e f g h)
qed

lemma low_S_bound:
  assumes "0 \<le> s" "s < Curve_N"
  shows "0 \<le> (if s > drop_bit 1 Curve_N then Curve_N - s else s)
         \<and> (if s > drop_bit 1 Curve_N then Curve_N - s else s) \<le> Curve_N div 2"
  using assms by (auto simp: drop_bit_eq_div Curve_N_def)

lemma Curve_N_bound: "Curve_N < 256 ^ 32"
  by (simp add: Curve_N_def)

text \<open>
  Claim C5. For every signature with \<open>r\<close> and \<open>s\<close> in \<open>[0, curveOrder)\<close>,
  \<open>Signature.serialize()\<close> encodes an \<open>s\<close> that is at most \<open>curveOrder/2\<close> (it replaces
  \<open>s\<close> by \<open>curveOrder - s\<close> when \<open>s\<close> exceeds \<open>curveOrder/2\<close>), and the big-endian
  encodings of \<open>r\<close> and \<open>s\<close> carry a leading zero byte whenever the most significant bit
  would otherwise be set, so neither can be read as negative. The output is the DER layout
  \<open>0x30 len 0x02 len(r) r 0x02 len(s) s\<close>.
\<close>

theorem C5_serialize_canonical:
  assumes "0 \<le> r" "r < Curve_N" "0 \<le> s" "s < Curve_N"
  shows "\<exists>rb sb.
           Signature_serialize other r s
             = Inr ([0x30, of_nat (4 + length rb + length sb), 0x02, of_nat (length rb)] @ rb
                    @ [0x02, of_nat (length sb)] @ sb)
           \<and> rb = canonical_bytes (nat r)
           \<and> sb = canonical_bytes (nat (if s > Curve_N div 2 then Curve_N - s else s))
           \<and> int (nat_of_bytes rb) = r
           \<and> int (nat_of_bytes sb) = (if s > Curve_N div 2 then Curve_N - s else s)
           \<and> int (nat_of_bytes sb) \<le> Curve_N div 2
           \<and> rb \<noteq> [] \<and> sb \<noteq> [] \<and> \<not> bit (hd rb) 7 \<and> \<not> bit (hd sb) 7"
proof -
  define sigS where "sigS = (if s > drop_bit 1 Curve_N then Curve_N - s else s)"
  define rb where "rb = canonical_bytes (nat r)"
  define sb where "sb = canonical_bytes (nat sigS)"
  have sS: "0 \<le> sigS" "sigS \<le> Curve_N div 2"
    using low_S_bound [OF assms(3,4)] by (simp_all add: sigS_def)
  have sigS_alt: "sigS = (if s > Curve_N div 2 then Curve_N - s else s)"
    by (simp add: sigS_def drop_bit_eq_div)
  have "sigS < Curve_N" using sS assms by (simp add: Curve_N_def)
  then have "nat sigS < 256 ^ 32" using Curve_N_bound sS(1) by (simp add: nat_less_iff)
  then have lsb: "length sb \<le> 33"
    unfolding sb_def using length_canonical_bytes [of "nat sigS" 32] by simp
  have "nat r < 256 ^ 32" using Curve_N_bound assms(1,2) by (simp add: nat_less_iff)
  then have lrb: "length rb \<le> 33"
    unfolding rb_def using length_canonical_bytes [of "nat r" 32] by simp
  have cr: "canonicalizeInt other r = Inr rb"
    unfolding rb_def by (rule canonicalizeInt_nonneg [OF assms(1)])
  have cs: "canonicalizeInt other sigS = Inr sb"
    unfolding sb_def by (rule canonicalizeInt_nonneg [OF sS(1)])
  have l1: "ByteArray_len other (int (6 + length rb + length sb) - 2) 1
            = Inr [of_nat (4 + length rb + length sb)]"
  proof -
    have "int (6 + length rb + length sb) - 2 = int (4 + length rb + length sb)" by simp
    moreover have "4 + length rb + length sb < 256" using lrb lsb by simp
    ultimately show ?thesis using ByteArray_len_byte by presburger
  qed
  have l2: "ByteArray_len other (int (length rb)) 1 = Inr [of_nat (length rb)]"
    using lrb by (intro ByteArray_len_byte) simp
  have l3: "ByteArray_len other (int (length sb)) 1 = Inr [of_nat (length sb)]"
    using lsb by (intro ByteArray_len_byte) simp
  have lay: "length rb + length sb < 250" using lrb lsb by simp
  have lay': "ba_setitem (ba_setitem (ba_setitem (ba_setitem (ba_setitem (ba_setitem
            (ba_setitem (ba_setitem (zeros (6 + length rb + length sb)) 0 [0x30]) 1
               [of_nat (4 + length rb + length sb)]) 2 [0x02]) 3 [of_nat (length rb)]) 4 rb)
            (4 + length rb) [0x02]) (4 + length rb + 1) [of_nat (length sb)])
            (4 + length rb + 1 + 1) sb
        = [0x30, of_nat (4 + length rb + length sb), 0x02, of_nat (length rb)] @ rb
          @ [0x02, of_nat (length sb)] @ sb"
    using serialize_layout [OF lay, of "of_nat (4 + length rb + length sb)"
        "of_nat (length rb)" "of_nat (length sb)"]
    unfolding Let_def .
  have ser: "Signature_serialize other r s
        = Inr ([0x30, of_nat (4 + length rb + length sb), 0x02, of_nat (length rb)] @ rb
               @ [0x02, of_nat (length sb)] @ sb)"
    unfolding Signature_serialize_def Let_def sigS_def [symmetric]
    by (simp only: cr cs l1 l2 l3 lay' sum.case)
  have "int (nat_of_bytes rb) = r"
    using assms(1) by (simp add: rb_def nat_of_bytes_canonical)
  moreover have "int (nat_of_bytes sb) = sigS"
    using sS(1) by (simp add: sb_def nat_of_bytes_canonical)
  moreover have "rb \<noteq> []" "sb \<noteq> []" "\<not> bit (hd rb) 7" "\<not> bit (hd sb) 7"
    by (simp_all add: rb_def sb_def canonical_bytes_not_Nil canonical_bytes_msb)
  ultimately show ?thesis
    using ser sS(2) sigS_alt rb_def sb_def by (intro exI [of _ rb] exI [of _ sb]) simp
qed

theorem C5_serialize_canonical_witness:
  "\<exists>rb sb.
     Signature_serialize (\<lambda>v n. Inl OverflowError) 200 (Curve_N - 1)
       = Inr ([0x30, of_nat (4 + length rb + length sb), 0x02, of_nat (length rb)] @ rb
              @ [0x02, of_nat (length sb)] @ sb)
     \<and> rb = [0, 200] \<and> sb = [1]
     \<and> int (nat_of_bytes rb) = 200
     \<and> int (nat_of_bytes sb) = 1
     \<and> int (nat_of_bytes sb) \<le> Curve_N div 2
     \<and> rb \<noteq> [] \<and> sb \<noteq> [] \<and> \<not> bit (hd rb) 7 \<and> \<not> bit (hd sb) 7"
proof -
  have c1: "canonical_bytes 200 = [0, 200]"
    by (simp add: canonical_bytes_def min_bytes_def bytes_of_nat.simps [of 200]
        bytes_of_nat.simps [of 0] bit_iff_odd)
  have c2: "canonical_bytes (Suc 0) = [1]"
    by (simp add: canonical_bytes_def min_bytes_def bytes_of_nat.simps [of "Suc 0"]
        bytes_of_nat.simps [of 0] bit_iff_odd)
  show ?thesis
    using C5_serialize_canonical [of 200 "Curve_N - 1" "\<lambda>v n. Inl OverflowError"]
    by (simp add: Curve_N_def c1 c2)
qed

section \<open>Accounts\<close>

text \<open>
  Modelled from the spec: \<open>api.UTXO\<close>, which is not among the sources, with the fields the
  spec's data model lists. \<open>satoshis\<close> is the value in atoms, a Python integer.
  \<open>isSpendable\<close> is a method of that class and a parameter of the model.
\<close>

record UTXO =
  address :: string
  txid :: string
  vout :: int
  satoshis :: int
  height :: "int option"
  maturity :: "int option"

record Balance =
  total :: int
  available :: int

text \<open>
  \<open>Account\<close>, with the fields the address cursor and the ledger read and write. The
  dictionaries \<open>txs\<close> and \<open>utxos\<close> keep their keys in insertion order, as Python's do.
  \<open>extPub\<close> and \<open>intPub\<close> are \<open>None\<close> while the account is closed.
\<close>

record 'key Account =
  lastExternalIndex :: int
  lastInternalIndex :: int
  externalAddresses :: "string list"
  internalAddresses :: "string list"
  cursor :: int
  balance :: Balance
  txs :: "(string \<times> string list) list"
  utxos :: "(string \<times> UTXO) list"
  extPub :: "'key option"
  intPub :: "'key option"

definition CrazyAddress :: string where
  "CrazyAddress = ''CRAZYADDRESS''"

text \<open>The fields \<open>Account.__init__\<close> sets.\<close>

definition Account_init :: "'key Account" where
  "Account_init =
     \<lparr>lastExternalIndex = - 1, lastInternalIndex = - 1, externalAddresses = [],
      internalAddresses = [], cursor = 0, balance = \<lparr>total = 0, available = 0\<rparr>,
      txs = [], utxos = [], extPub = None, intPub = None\<rparr>"

text \<open>
  \<open>key.deriveChildAddress(idx, net)\<close> belongs to \<open>crypto.ExtendedKey\<close> (not among the
  sources) and is the parameter \<open>derive\<close>; it returns an address or raises. A method call on
  \<open>None\<close> raises \<open>AttributeError\<close>. Only \<open>ParameterRangeError\<close> is caught.
\<close>

definition deriveChildAddress ::
  "('key \<Rightarrow> int \<Rightarrow> error + string) \<Rightarrow> 'key option \<Rightarrow> int \<Rightarrow> error + string" where
  "deriveChildAddress derive k idx =
     (case k of None \<Rightarrow> Inl AttributeError | Some key \<Rightarrow> derive key idx)"

text \<open>
  A method of \<open>Account\<close> returns its result or the exception it raised, and the account as
  the call leaves it.
\<close>

definition generateNextPaymentAddress ::
  "('key \<Rightarrow> int \<Rightarrow> error + string) \<Rightarrow> 'key Account \<Rightarrow> (error + string) \<times> 'key Account" where
  "generateNextPaymentAddress derive a =
     (if int (length (externalAddresses a)) \<noteq> lastExternalIndex a + 1
      then (Inl (Exception ''index-address length mismatch''), a)
      else
        let idx = lastExternalIndex a + 1 in
        case (case deriveChildAddress derive (extPub a) idx of
                Inl e \<Rightarrow> if e = ParameterRangeError then Inr CrazyAddress else Inl e
              | Inr addr \<Rightarrow> Inr addr) of
          Inl e \<Rightarrow> (Inl e, a)
        | Inr addr \<Rightarrow>
            (Inr addr, a\<lparr>externalAddresses := externalAddresses a @ [addr],
                         lastExternalIndex := idx\<rparr>))"

lemma generateNextPaymentAddress_Inr:
  assumes "generateNextPaymentAddress derive a = (Inr addr, a')"
  shows "externalAddresses a' = externalAddresses a @ [addr] \<and> cursor a' = cursor a
         \<and> lastExternalIndex a' = lastExternalIndex a + 1
         \<and> int (length (externalAddresses a)) = lastExternalIndex a + 1
         \<and> internalAddresses a' = internalAddresses a
         \<and> lastInternalIndex a' = lastInternalIndex a"
  using assms
  by (auto simp: generateNextPaymentAddress_def Let_def split: if_splits sum.splits)

lemma generateNextPaymentAddress_Inr_sym:
  assumes "(Inr addr, a') = generateNextPaymentAddress derive a"
  shows "length (externalAddresses a') = Suc (length (externalAddresses a))
         \<and> cursor a' = cursor a"
  using generateNextPaymentAddress_Inr [OF assms [symmetric]] by simp

lemma generateNextPaymentAddress_Inl:
  assumes "generateNextPaymentAddress derive a = (Inl e, a')"
  shows "a' = a"
  using assms
  by (auto simp: generateNextPaymentAddress_def Let_def split: if_splits sum.splits)

text \<open>
  Reading \<open>self.externalAddresses[self.cursor]\<close>: an index from 0 up reads from the front,
  one from -1 down reads from the back, and any other raises \<open>IndexError\<close>.
\<close>

definition py_index :: "'a list \<Rightarrow> int \<Rightarrow> error + 'a" where
  "py_index xs i =
     (if 0 \<le> i \<and> i < int (length xs) then Inr (xs ! nat i)
      else if - int (length xs) \<le> i \<and> i < 0 then Inr (xs ! nat (int (length xs) + i))
      else Inl IndexError)"

text \<open>The loop \<open>while self.cursor >= len(self.externalAddresses)\<close> of \<open>getNextPaymentAddress\<close>.\<close>

function cursor_loop ::
  "('key \<Rightarrow> int \<Rightarrow> error + string) \<Rightarrow> 'key Account \<Rightarrow> (error + unit) \<times> 'key Account" where
  "cursor_loop derive a =
     (if cursor a \<ge> int (length (externalAddresses a)) then
        (case generateNextPaymentAddress derive a of
           (Inl e, a') \<Rightarrow> (Inl e, a')
         | (Inr addr, a') \<Rightarrow> cursor_loop derive a')
      else (Inr (), a))"
  by pat_completeness auto
termination
  by (relation "measure (\<lambda>(derive, a). nat (cursor a + 1 - int (length (externalAddresses a))))")
    (auto dest!: generateNextPaymentAddress_Inr_sym)

declare cursor_loop.simps [simp del]

definition getNextPaymentAddress ::
  "('key \<Rightarrow> int \<Rightarrow> error + string) \<Rightarrow> 'key Account \<Rightarrow> (error + string) \<times> 'key Account" where
  "getNextPaymentAddress derive a =
     (let a1 = a\<lparr>cursor := cursor a + 1\<rparr> in
      case cursor_loop derive a1 of
        (Inl e, a2) \<Rightarrow> (Inl e, a2)
      | (Inr u, a2) \<Rightarrow> (py_index (externalAddresses a2) (cursor a2), a2))"

definition getChangeAddress ::
  "('key \<Rightarrow> int \<Rightarrow> error + string) \<Rightarrow> 'key Account \<Rightarrow> (error + string) \<times> 'key Account" where
  "getChangeAddress derive a =
     (if int (length (internalAddresses a)) \<noteq> lastInternalIndex a + 1
      then (Inl (Exception ''index-address length mismatch while generating change address''), a)
      else
        let idx = lastInternalIndex a + 1 in
        case (case deriveChildAddress derive (intPub a) idx of
                Inl e \<Rightarrow> if e = ParameterRangeError then Inr CrazyAddress else Inl e
              | Inr addr \<Rightarrow> Inr addr) of
          Inl e \<Rightarrow> (Inl e, a)
        | Inr addr \<Rightarrow>
            (Inr addr, a\<lparr>internalAddresses := internalAddresses a @ [addr],
                         lastInternalIndex := idx\<rparr>))"

text \<open>\<open>list.index\<close>: the first position of an element, \<open>None\<close> for \<open>ValueError\<close>.\<close>

fun list_index :: "'a list \<Rightarrow> 'a \<Rightarrow> nat option" where
  "list_index [] x = None"
| "list_index (y # ys) x =
     (if y = x then Some 0 else map_option Suc (list_index ys x))"

text \<open>The loop of \<open>generateGapAddresses\<close> over the addresses of \<open>self.txs\<close>.\<close>

fun highest_index :: "string list \<Rightarrow> string list \<Rightarrow> int \<Rightarrow> int" where
  "highest_index ext [] highest = highest"
| "highest_index ext (addr # addrs) highest =
     (case list_index ext addr of
        None \<Rightarrow> highest_index ext addrs highest
      | Some i \<Rightarrow> highest_index ext addrs (max highest (int i)))"

text \<open>The loop \<open>while len(self.externalAddresses) < tip\<close>.\<close>

function gap_loop ::
  "('key \<Rightarrow> int \<Rightarrow> error + string) \<Rightarrow> int \<Rightarrow> 'key Account \<Rightarrow> (error + unit) \<times> 'key Account" where
  "gap_loop derive tip a =
     (if int (length (externalAddresses a)) < tip then
        (case generateNextPaymentAddress derive a of
           (Inl e, a') \<Rightarrow> (Inl e, a')
         | (Inr addr, a') \<Rightarrow> gap_loop derive tip a')
      else (Inr (), a))"
  by pat_completeness auto
termination
  by (relation "measure (\<lambda>(derive, tip, a). nat (tip - int (length (externalAddresses a))))")
    (auto dest!: generateNextPaymentAddress_Inr_sym)

declare gap_loop.simps [simp del]

text \<open>
  \<open>generateGapAddresses\<close>. When \<open>extPub\<close> is \<open>None\<close> the source logs a warning and goes
  on; logging changes nothing in the model.
\<close>

definition generateGapAddresses ::
  "('key \<Rightarrow> int \<Rightarrow> error + string) \<Rightarrow> int \<Rightarrow> 'key Account \<Rightarrow> (error + unit) \<times> 'key Account" where
  "generateGapAddresses derive gap a =
     (let highest = highest_index (externalAddresses a) (map fst (txs a)) 0;
          tip = highest + gap
      in gap_loop derive tip a)"


subsection \<open>The address lists and their indices\<close>

definition Account_invariant :: "'key Account \<Rightarrow> bool" where
  "Account_invariant a \<longleftrightarrow>
     int (length (externalAddresses a)) = lastExternalIndex a + 1
     \<and> int (length (internalAddresses a)) = lastInternalIndex a + 1"

datatype call = GetNextPaymentAddress | GetChangeAddress

fun do_call :: "('key \<Rightarrow> int \<Rightarrow> error + string) \<Rightarrow> 'key Account \<Rightarrow> call \<Rightarrow> 'key Account" where
  "do_call derive a GetNextPaymentAddress = snd (getNextPaymentAddress derive a)"
| "do_call derive a GetChangeAddress = snd (getChangeAddress derive a)"

definition run_calls ::
  "('key \<Rightarrow> int \<Rightarrow> error + string) \<Rightarrow> call list \<Rightarrow> 'key Account \<Rightarrow> 'key Account" where
  "run_calls derive calls a = foldl (do_call derive) a calls"

lemma generateNextPaymentAddress_invariant:
  assumes "Account_invariant a"
  shows "Account_invariant (snd (generateNextPaymentAddress derive a))"
proof (cases "generateNextPaymentAddress derive a")
  case (Pair r a')
  show ?thesis
  proof (cases r)
    case (Inl e)
    with Pair assms generateNextPaymentAddress_Inl show ?thesis by fastforce
  next
    case (Inr addr)
    with Pair have "generateNextPaymentAddress derive a = (Inr addr, a')" by simp
    from generateNextPaymentAddress_Inr [OF this] assms Pair show ?thesis
      by (simp add: Account_invariant_def)
  qed
qed

lemma cursor_loop_invariant:
  "Account_invariant a \<Longrightarrow> Account_invariant (snd (cursor_loop derive a))"
proof (induction derive a rule: cursor_loop.induct)
  case (1 derive a)
  show ?case
  proof (cases "cursor a \<ge> int (length (externalAddresses a))")
    case False
    with 1 show ?thesis by (subst cursor_loop.simps) simp
  next
    case True
    obtain r a' where g: "generateNextPaymentAddress derive a = (r, a')"
      by (cases "generateNextPaymentAddress derive a")
    have inv': "Account_invariant a'"
      using generateNextPaymentAddress_invariant [OF "1.prems", of derive] g by simp
    show ?thesis
    proof (cases r)
      case (Inl e)
      with True g inv' show ?thesis by (subst cursor_loop.simps) simp
    next
      case (Inr addr)
      have "Account_invariant (snd (cursor_loop derive a'))"
        using "1.IH" [OF True g [symmetric] Inr inv'] .
      with True g Inr show ?thesis by (subst cursor_loop.simps) simp
    qed
  qed
qed

lemma getNextPaymentAddress_invariant:
  assumes "Account_invariant a"
  shows "Account_invariant (snd (getNextPaymentAddress derive a))"
proof -
  have "Account_invariant (a\<lparr>cursor := cursor a + 1\<rparr>)"
    using assms by (simp add: Account_invariant_def)
  from cursor_loop_invariant [OF this, of derive] show ?thesis
    by (auto simp: getNextPaymentAddress_def Let_def split: prod.splits sum.splits)
qed

lemma getChangeAddress_invariant:
  assumes "Account_invariant a"
  shows "Account_invariant (snd (getChangeAddress derive a))"
  using assms
  by (auto simp: getChangeAddress_def Account_invariant_def Let_def split: sum.splits)

lemma do_call_invariant:
  "Account_invariant a \<Longrightarrow> Account_invariant (do_call derive a c)"
  by (cases c) (simp_all add: getNextPaymentAddress_invariant getChangeAddress_invariant)

lemma Account_init_invariant: "Account_invariant Account_init"
  by (simp add: Account_invariant_def Account_init_def)

text \<open>
  Claim C6. For every account, after any sequence of \<open>getNextPaymentAddress\<close> and
  \<open>getChangeAddress\<close> calls, \<open>len(externalAddresses) == lastExternalIndex + 1\<close> and
  \<open>len(internalAddresses) == lastInternalIndex + 1\<close>.

  The constructor establishes the two equations, and every call keeps them, whether it
  returns or raises, whatever the key derivation does: so they hold after any sequence of
  calls on an account that satisfied them before, a new account included.
\<close>

lemma run_calls_invariant:
  assumes "Account_invariant a"
  shows "Account_invariant (run_calls derive calls a)"
  using assms unfolding run_calls_def
  by (induction calls arbitrary: a) (simp_all add: do_call_invariant)

theorem C6_index_invariant:
  "Account_invariant (Account_init :: 'key Account)
   \<and> (Account_invariant (a :: 'key Account)
        \<longrightarrow> Account_invariant (run_calls derive calls a))"
  using Account_init_invariant run_calls_invariant by blast

definition derive_example :: "nat \<Rightarrow> int \<Rightarrow> error + string" where
  "derive_example k idx = (if idx = 1 then Inl ParameterRangeError else Inr ''Ds'')"

definition open_account_example :: "nat Account" where
  "open_account_example = Account_init\<lparr>extPub := Some 0, intPub := Some 1\<rparr>"

theorem C6_index_invariant_witness:
  "Account_invariant open_account_example
   \<and> Account_invariant
       (run_calls derive_example
          [GetNextPaymentAddress, GetChangeAddress, GetNextPaymentAddress, GetChangeAddress]
          open_account_example)
   \<and> externalAddresses
       (run_calls derive_example
          [GetNextPaymentAddress, GetChangeAddress, GetNextPaymentAddress, GetChangeAddress]
          open_account_example) = [''Ds'', CrazyAddress, ''Ds'']
   \<and> lastExternalIndex
       (run_calls derive_example
          [GetNextPaymentAddress, GetChangeAddress, GetNextPaymentAddress, GetChangeAddress]
          open_account_example) = 2"
proof -
  have h: "Account_invariant open_account_example"
    by (simp add: open_account_example_def Account_init_def Account_invariant_def)
  have e: "externalAddresses
       (run_calls derive_example
          [GetNextPaymentAddress, GetChangeAddress, GetNextPaymentAddress, GetChangeAddress]
          open_account_example) = [''Ds'', CrazyAddress, ''Ds'']
     \<and> lastExternalIndex
       (run_calls derive_example
          [GetNextPaymentAddress, GetChangeAddress, GetNextPaymentAddress, GetChangeAddress]
          open_account_example) = 2"
    by (simp add: run_calls_def open_account_example_def Account_init_def
        getNextPaymentAddress_def getChangeAddress_def cursor_loop.simps
        generateNextPaymentAddress_def deriveChildAddress_def derive_example_def py_index_def)
  show ?thesis
    using h C6_index_invariant [of open_account_example derive_example
        "[GetNextPaymentAddress, GetChangeAddress, GetNextPaymentAddress, GetChangeAddress]"] e
    by simp
qed

subsection \<open>Gap addresses\<close>

lemma gap_loop_cursor: "cursor (snd (gap_loop derive tip a)) = cursor a"
proof (induction derive tip a rule: gap_loop.induct)
  case (1 derive tip a)
  show ?case
  proof (cases "int (length (externalAddresses a)) < tip")
    case False
    then show ?thesis by (subst gap_loop.simps) simp
  next
    case True
    obtain r a' where g: "generateNextPaymentAddress derive a = (r, a')"
      by (cases "generateNextPaymentAddress derive a")
    show ?thesis
    proof (cases r)
      case (Inl e)
      with g generateNextPaymentAddress_Inl have "a' = a" by fastforce
      with True g Inl show ?thesis by (subst gap_loop.simps) simp
    next
      case (Inr addr)
      with g have g': "generateNextPaymentAddress derive a = (Inr addr, a')" by simp
      have "cursor (snd (gap_loop derive tip a')) = cursor a'"
        using "1.IH" [OF True g [symmetric] Inr] .
      with True g' generateNextPaymentAddress_Inr [OF g'] show ?thesis
        by (subst gap_loop.simps) simp
    qed
  qed
qed

lemma generateGapAddresses_cursor:
  "cursor (snd (generateGapAddresses derive gap a)) = cursor a"
  by (simp add: generateGapAddresses_def Let_def gap_loop_cursor)

definition six_addresses_account :: "nat Account" where
  "six_addresses_account =
     Account_init\<lparr>externalAddresses := [''a0'', ''a1'', ''a2'', ''a3'', ''a4'', ''a5''],
                  lastExternalIndex := 5, cursor := 5, extPub := Some 0, intPub := Some 1\<rparr>"

definition closed_account :: "nat Account" where
  "closed_account = Account_init"

text \<open>
  Claim C3. For every open account and every \<open>gap >= 0\<close>, \<open>generateGapAddresses(gap)\<close>
  leaves the account with at least \<open>cursor + gap\<close> external addresses and leaves the
  cursor unchanged; on a closed account (\<open>extPub\<close> unset) the call is a no-op.

  The cursor is indeed unchanged (\<open>generateGapAddresses_cursor\<close>). But the code generates up
  to \<open>highest + gap\<close> addresses, where \<open>highest\<close> is the highest index of an external
  address with a known transaction, not up to \<open>cursor + gap\<close>: an open account with six
  addresses, the cursor at 5 and no transactions is left with its six addresses by
  \<open>generateGapAddresses(3)\<close>, fewer than \<open>cursor + gap = 8\<close>. And on a closed account the
  code only logs the warning and goes on: with no addresses and \<open>gap = 1\<close> it calls
  \<open>deriveChildAddress\<close> on \<open>None\<close>, which raises \<open>AttributeError\<close>.
\<close>

theorem C3_gap_counts_from_highest_tx:
  "generateGapAddresses derive 3 six_addresses_account = (Inr (), six_addresses_account)
   \<and> int (length (externalAddresses six_addresses_account)) = 6
   \<and> cursor six_addresses_account + 3 = 8
   \<and> generateGapAddresses derive 1 closed_account = (Inl AttributeError, closed_account)"
  by (simp add: generateGapAddresses_def six_addresses_account_def closed_account_def
      Account_init_def gap_loop.simps generateNextPaymentAddress_def deriveChildAddress_def)

subsection \<open>Balance and coin selection\<close>

text \<open>\<open>utxoscan\<close>: the values of the dictionary \<open>utxos\<close>, in its order.\<close>

definition utxoscan :: "'key Account \<Rightarrow> UTXO list" where
  "utxoscan a = map snd (utxos a)"

text \<open>The loop of \<open>calcBalance\<close>, with its two running sums.\<close>

fun balance_loop ::
  "(UTXO \<Rightarrow> int \<Rightarrow> bool) \<Rightarrow> int \<Rightarrow> UTXO list \<Rightarrow> int \<Rightarrow> int \<Rightarrow> int \<times> int" where
  "balance_loop isSpendable tipHeight [] tot avail = (tot, avail)"
| "balance_loop isSpendable tipHeight (utxo # us) tot avail =
     (let tot = tot + satoshis utxo in
      if \<not> isSpendable utxo tipHeight then balance_loop isSpendable tipHeight us tot avail
      else balance_loop isSpendable tipHeight us tot (avail + satoshis utxo))"

text \<open>\<open>calcBalance\<close> stores the sums in \<open>self.balance\<close> and returns that object.\<close>

definition calcBalance ::
  "(UTXO \<Rightarrow> int \<Rightarrow> bool) \<Rightarrow> int \<Rightarrow> 'key Account \<Rightarrow> Balance \<times> 'key Account" where
  "calcBalance isSpendable tipHeight a =
     (let r = balance_loop isSpendable tipHeight (utxoscan a) 0 0;
          b = (balance a)\<lparr>total := fst r, available := snd r\<rparr>
      in (b, a\<lparr>balance := b\<rparr>))"

text \<open>
  The loop of \<open>getUTXOs\<close> over the sorted pairs. \<open>approve\<close> is optional: the source tests
  \<open>approve and not approve(utxo)\<close>.
\<close>

fun select_loop ::
  "(UTXO \<Rightarrow> bool) option \<Rightarrow> int \<Rightarrow> (int \<times> UTXO) list \<Rightarrow> UTXO list \<Rightarrow> int
   \<Rightarrow> UTXO list \<times> int" where
  "select_loop approve requested [] matches collected = (matches, collected)"
| "select_loop approve requested (p # ps) matches collected =
     (if (case approve of None \<Rightarrow> False | Some f \<Rightarrow> \<not> f (snd p))
      then select_loop approve requested ps matches collected
      else
        let matches = matches @ [snd p];
            collected = collected + fst p
        in if collected \<ge> requested then (matches, collected)
           else select_loop approve requested ps matches collected)"

text \<open>
  \<open>getUTXOs\<close>. Python's \<open>sorted\<close> is stable, as \<open>sort_key\<close> is.
\<close>

definition getUTXOs ::
  "int \<Rightarrow> (UTXO \<Rightarrow> bool) option \<Rightarrow> 'key Account \<Rightarrow> UTXO list \<times> bool" where
  "getUTXOs requested approve a =
     (let pairs = map (\<lambda>u. (satoshis u, u)) (utxoscan a);
          r = select_loop approve requested (sort_key fst pairs) [] 0
      in (fst r, snd r \<ge> requested))"

definition approves :: "(UTXO \<Rightarrow> bool) option \<Rightarrow> UTXO \<Rightarrow> bool" where
  "approves approve u = (case approve of None \<Rightarrow> True | Some f \<Rightarrow> f u)"

lemma balance_loop_sums:
  "balance_loop isSp h us tot avail
   = (tot + sum_list (map satoshis us),
      avail + sum_list (map satoshis (filter (\<lambda>u. isSp u h) us)))"
  by (induction us arbitrary: tot avail) (simp_all add: Let_def)

lemma sum_list_filter_le:
  assumes "\<forall>u\<in>set us. 0 \<le> satoshis u"
  shows "sum_list (map satoshis (filter P us)) \<le> sum_list (map satoshis us)"
  using assms by (induction us) auto

lemma utxoscan_balance_update [simp]: "utxoscan (a\<lparr>balance := b\<rparr>) = utxoscan a"
  by (simp add: utxoscan_def)

text \<open>
  Claim C7, as amended. For every account state and every tip height, \<open>calcBalance\<close> is
  idempotent (a second call with the same tip height returns the same total and available),
  total is the sum of all known UTXO values, available is the sum over the spendable ones,
  and \<open>available <= total\<close> when no UTXO value is negative.

  The claim as stated has \<open>available <= total\<close> for every account state. The values are
  Python integers and nothing in the code keeps them from being negative: a ledger whose one
  UTXO has value -1 and is not spendable has total -1 and available 0
  (\<open>C7_available_exceeds_total\<close> below).
\<close>

theorem C7_calcBalance:
  "fst (calcBalance isSpendable tipHeight (snd (calcBalance isSpendable tipHeight a)))
     = fst (calcBalance isSpendable tipHeight a)
   \<and> total (fst (calcBalance isSpendable tipHeight a)) = sum_list (map satoshis (utxoscan a))
   \<and> available (fst (calcBalance isSpendable tipHeight a))
       = sum_list (map satoshis (filter (\<lambda>u. isSpendable u tipHeight) (utxoscan a)))
   \<and> ((\<forall>u\<in>set (utxoscan a). 0 \<le> satoshis u) \<longrightarrow>
        available (fst (calcBalance isSpendable tipHeight a))
          \<le> total (fst (calcBalance isSpendable tipHeight a)))"
  by (simp add: calcBalance_def Let_def balance_loop_sums sum_list_filter_le)

text \<open>A spendability test in the manner of the spec: confirmed, and past maturity if any.\<close>

definition isSpendable_example :: "UTXO \<Rightarrow> int \<Rightarrow> bool" where
  "isSpendable_example u tipHeight =
     (case maturity u of None \<Rightarrow> True | Some m \<Rightarrow> m \<le> tipHeight)"

definition utxo_example :: "string \<Rightarrow> int \<Rightarrow> int option \<Rightarrow> UTXO" where
  "utxo_example tx v m =
     \<lparr>address = ''Ds'', txid = tx, vout = 0, satoshis = v, height = Some 1, maturity = m\<rparr>"

definition ledger_example :: "nat Account" where
  "ledger_example =
     Account_init\<lparr>utxos := [(''c#0'', utxo_example ''c'' 500 (Some 10)),
                             (''a#0'', utxo_example ''a'' 300 None),
                             (''b#0'', utxo_example ''b'' 100 None)]\<rparr>"

theorem C7_calcBalance_witness:
  "list_all (\<lambda>u. 0 \<le> satoshis u) (utxoscan ledger_example)
   \<and> fst (calcBalance isSpendable_example 5 (snd (calcBalance isSpendable_example 5 ledger_example)))
       = fst (calcBalance isSpendable_example 5 ledger_example)
   \<and> total (fst (calcBalance isSpendable_example 5 ledger_example)) = 900
   \<and> available (fst (calcBalance isSpendable_example 5 ledger_example)) = 400
   \<and> available (fst (calcBalance isSpendable_example 5 ledger_example))
       \<le> total (fst (calcBalance isSpendable_example 5 ledger_example))"
proof -
  have h: "\<forall>u\<in>set (utxoscan ledger_example). 0 \<le> satoshis u"
    by (simp add: utxoscan_def ledger_example_def utxo_example_def)
  have s: "sum_list (map satoshis (utxoscan ledger_example)) = 900"
    by (simp add: utxoscan_def ledger_example_def utxo_example_def)
  have f: "sum_list (map satoshis (filter (\<lambda>u. isSpendable_example u 5) (utxoscan ledger_example)))
           = 400"
    by (simp add: utxoscan_def ledger_example_def utxo_example_def isSpendable_example_def)
  show ?thesis
    using C7_calcBalance [of isSpendable_example 5 ledger_example] h s f
    by (simp add: list_all_iff)
qed

text \<open>
  The claim C7 as stated fails: a ledger whose one UTXO has the value -1 and is not
  spendable has available 0 and total -1.
\<close>

definition never_spendable :: "UTXO \<Rightarrow> int \<Rightarrow> bool" where
  "never_spendable u tipHeight = False"

definition negative_ledger :: "nat Account" where
  "negative_ledger = Account_init\<lparr>utxos := [(''d#0'', utxo_example ''d'' (- 1) None)]\<rparr>"

theorem C7_available_exceeds_total:
  "\<not> available (fst (calcBalance never_spendable 0 negative_ledger))
       \<le> total (fst (calcBalance never_spendable 0 negative_ledger))"
  by (simp add: calcBalance_def utxoscan_def negative_ledger_def utxo_example_def
      never_spendable_def Account_init_def Let_def)

lemma insort_key_pairs:
  "insort_key fst (satoshis x, x) (map (\<lambda>u. (satoshis u, u)) ys)
   = map (\<lambda>u. (satoshis u, u)) (insort_key satoshis x ys)"
  by (induction ys) simp_all

lemma sort_key_pairs:
  "sort_key fst (map (\<lambda>u. (satoshis u, u)) us) = map (\<lambda>u. (satoshis u, u)) (sort_key satoshis us)"
  by (induction us) (simp_all add: insort_key_pairs)

lemma select_loop_skip:
  "\<not> approves approve u \<Longrightarrow>
   select_loop approve requested ((v, u) # ps) matches collected
   = select_loop approve requested ps matches collected"
  by (cases approve) (simp_all add: approves_def)

lemma select_loop_take:
  "approves approve u \<Longrightarrow>
   select_loop approve requested ((v, u) # ps) matches collected
   = (if requested \<le> collected + v then (matches @ [u], collected + v)
      else select_loop approve requested ps (matches @ [u]) (collected + v))"
  by (cases approve) (simp_all add: approves_def Let_def)

lemma select_loop_spec:
  "\<exists>sel rest.
     fst (select_loop approve requested (map (\<lambda>u. (satoshis u, u)) us) matches collected)
       = matches @ sel
     \<and> snd (select_loop approve requested (map (\<lambda>u. (satoshis u, u)) us) matches collected)
       = collected + sum_list (map satoshis sel)
     \<and> filter (approves approve) us = sel @ rest"
proof (induction us arbitrary: matches collected)
  case Nil
  then show ?case by simp
next
  case (Cons u us)
  show ?case
  proof (cases "approves approve u")
    case False
    from Cons.IH [of matches collected] False show ?thesis
      by (simp add: select_loop_skip del: select_loop.simps)
  next
    case True
    show ?thesis
    proof (cases "collected + satoshis u \<ge> requested")
      case True
      with \<open>approves approve u\<close> show ?thesis
        by (intro exI [of _ "[u]"] exI [of _ "filter (approves approve) us"])
          (simp add: select_loop_take del: select_loop.simps)
    next
      case False
      from Cons.IH [of "matches @ [u]" "collected + satoshis u"]
      obtain sel rest where
        a: "fst (select_loop approve requested (map (\<lambda>u. (satoshis u, u)) us) (matches @ [u])
                   (collected + satoshis u)) = (matches @ [u]) @ sel"
        and b: "snd (select_loop approve requested (map (\<lambda>u. (satoshis u, u)) us)
                   (matches @ [u]) (collected + satoshis u))
                = collected + satoshis u + sum_list (map satoshis sel)"
        and c: "filter (approves approve) us = sel @ rest"
        by blast
      from a b c False \<open>approves approve u\<close> show ?thesis
        by (intro exI [of _ "u # sel"] exI [of _ rest])
          (simp add: select_loop_take del: select_loop.simps)
    qed
  qed
qed

text \<open>
  Claim C8. For every UTXO set, requested amount and optional filter, \<open>getUTXOs\<close> returns
  UTXOs chosen in ascending order of value from among those the filter approves, and a
  boolean that is true exactly when the values of the returned UTXOs sum to at least the
  requested amount. The returned list is an initial part of the approved UTXOs in ascending
  (stable) order of value.
\<close>

theorem C8_getUTXOs:
  "(\<exists>rest. filter (approves approve) (sort_key satoshis (utxoscan a))
             = fst (getUTXOs requested approve a) @ rest)
   \<and> sorted (map satoshis (fst (getUTXOs requested approve a)))
   \<and> (\<forall>u\<in>set (fst (getUTXOs requested approve a)). approves approve u \<and> u \<in> set (utxoscan a))
   \<and> (snd (getUTXOs requested approve a)
        \<longleftrightarrow> requested \<le> sum_list (map satoshis (fst (getUTXOs requested approve a))))"
proof -
  let ?sorted = "sort_key satoshis (utxoscan a)"
  from select_loop_spec [of approve requested ?sorted "[]" 0]
  obtain sel rest where
    a: "fst (select_loop approve requested (map (\<lambda>u. (satoshis u, u)) ?sorted) [] 0) = sel"
    and b: "snd (select_loop approve requested (map (\<lambda>u. (satoshis u, u)) ?sorted) [] 0)
            = sum_list (map satoshis sel)"
    and c: "filter (approves approve) ?sorted = sel @ rest"
    by auto
  have ms: "fst (getUTXOs requested approve a) = sel"
    and ok: "snd (getUTXOs requested approve a) \<longleftrightarrow> requested \<le> sum_list (map satoshis sel)"
    using a b by (simp_all add: getUTXOs_def Let_def sort_key_pairs)
  have "sorted (map satoshis (filter (approves approve) ?sorted))"
    by (rule sorted_filter) (rule sorted_sort_key)
  then have srt: "sorted (map satoshis sel)"
    by (simp add: c sorted_append)
  have "set sel \<subseteq> set (filter (approves approve) ?sorted)"
    by (simp add: c)
  then have mem: "\<forall>u\<in>set sel. approves approve u \<and> u \<in> set (utxoscan a)"
    by auto
  from c srt mem ok show ?thesis
    unfolding ms by blast
qed

theorem C8_getUTXOs_witness:
  "getUTXOs 350 (Some (\<lambda>u. isSpendable_example u 5)) ledger_example
     = ([utxo_example ''b'' 100 None, utxo_example ''a'' 300 None], True)
   \<and> sorted (map satoshis (fst (getUTXOs 350 (Some (\<lambda>u. isSpendable_example u 5)) ledger_example)))
   \<and> list_all (\<lambda>u. approves (Some (\<lambda>u. isSpendable_example u 5)) u
                      \<and> u \<in> set (utxoscan ledger_example))
        (fst (getUTXOs 350 (Some (\<lambda>u. isSpendable_example u 5)) ledger_example))
   \<and> (350::int) \<le> sum_list (map satoshis
         (fst (getUTXOs 350 (Some (\<lambda>u. isSpendable_example u 5)) ledger_example)))"
proof -
  have e: "getUTXOs 350 (Some (\<lambda>u. isSpendable_example u 5)) ledger_example
           = ([utxo_example ''b'' 100 None, utxo_example ''a'' 300 None], True)"
    by (simp add: getUTXOs_def utxoscan_def ledger_example_def utxo_example_def
        isSpendable_example_def Account_init_def Let_def)
  show ?thesis
    using C8_getUTXOs [of "Some (\<lambda>u. isSpendable_example u 5)" ledger_example 350] e
    by (simp add: list_all_iff)
qed

section \<open>KeyDeriver: newMaster\<close>

definition MASTER_KEY :: ByteArray where
  "MASTER_KEY = map (\<lambda>c. of_nat (of_char c)) ''Bitcoin seed''"

definition MAX_SECRET_INT :: int where
  "MAX_SECRET_INT = 115792089237316195423570985008687907852837564279074904382605163141518161494337"

text \<open>
  \<open>crypto.hmacDigest\<close> (HMAC-SHA512) and the seed-length bounds \<open>DCR.MinSeedBytes\<close> and
  \<open>DCR.MaxSeedBytes\<close> come from modules that are not among the sources: they are
  parameters of the model.
\<close>

record KeyDeriver_env =
  hmacDigest :: "ByteArray \<Rightarrow> ByteArray \<Rightarrow> ByteArray"
  MinSeedBytes :: nat
  MaxSeedBytes :: nat

record Network =
  HDPrivateKeyID :: ByteArray
  HDPublicKeyID :: ByteArray

record ExtendedKey =
  privVer :: ByteArray
  pubVer :: ByteArray
  key :: ByteArray
  pubKey :: ByteArray
  chainCode :: ByteArray
  parentFP :: ByteArray
  depth :: nat
  childNum :: nat
  isPrivate :: bool

text \<open>
  \<open>newMaster\<close>. The \<open>assert\<close> on the seed length raises \<open>AssertionError\<close>;
  \<open>int(len(lr)/2)\<close> is half the digest length; \<open>secretInt\<close> is the big-endian value of
  the first half.
\<close>

definition newMaster :: "KeyDeriver_env \<Rightarrow> ByteArray \<Rightarrow> Network \<Rightarrow> error + ExtendedKey" where
  "newMaster env seed network =
     (let seedLen = length seed in
      if \<not> (seedLen \<ge> MinSeedBytes env \<and> seedLen \<le> MaxSeedBytes env) then Inl AssertionError
      else
        let lr = hmacDigest env MASTER_KEY seed;
            lrLen = length lr div 2;
            secretKey = take lrLen lr;
            chainCode = drop lrLen lr;
            secretInt = int (nat_of_bytes secretKey)
        in
          if secretInt > MAX_SECRET_INT \<or> secretInt \<le> 0
          then Inl (KeyLengthException ''generated key was outside acceptable range'')
          else
            let parentFp = [0x00, 0x00, 0x00, 0x00] in
            Inr \<lparr>privVer = HDPrivateKeyID network, pubVer = HDPublicKeyID network,
                 key = secretKey, pubKey = [], chainCode = chainCode, parentFP = parentFp,
                 depth = 0, childNum = 0, isPrivate = True\<rparr>)"

text \<open>The integer \<open>newMaster\<close> tests: the big-endian value of the digest's first half.\<close>

definition secretInt_of :: "KeyDeriver_env \<Rightarrow> ByteArray \<Rightarrow> int" where
  "secretInt_of env seed =
     int (nat_of_bytes (take (length (hmacDigest env MASTER_KEY seed) div 2)
                          (hmacDigest env MASTER_KEY seed)))"

lemma MAX_SECRET_INT_is_order: "MAX_SECRET_INT = Curve_N"
  by (simp add: MAX_SECRET_INT_def Curve_N_def)

lemma newMaster_fails_iff:
  assumes "MinSeedBytes env \<le> length seed" "length seed \<le> MaxSeedBytes env"
  shows "(\<exists>msg. newMaster env seed network = Inl (KeyLengthException msg))
         \<longleftrightarrow> secretInt_of env seed = 0 \<or> secretInt_of env seed > Curve_N"
  using assms
  by (auto simp: newMaster_def secretInt_of_def Let_def MAX_SECRET_INT_is_order)

text \<open>
  Claim C4. For every in-range seed, \<open>newMaster(seed, network)\<close> fails with a key-range
  error if and only if the integer value of the 32-byte secret derived from
  HMAC-SHA512("Bitcoin seed", seed) is 0 or greater than or equal to the curve order;
  otherwise it returns a private extended key at depth 0, child index 0, with an all-zero
  parent fingerprint.

  The code tests \<open>secretInt > MAX_SECRET_INT\<close>, and \<open>MAX_SECRET_INT\<close> is the curve order
  itself: it fails exactly when the secret is 0 or greater than the order
  (\<open>newMaster_fails_iff\<close>). A secret equal to the curve order is accepted, and the key
  returned holds it.
\<close>

theorem C4_newMaster_accepts_curve_order:
  assumes "MinSeedBytes env \<le> length seed" "length seed \<le> MaxSeedBytes env"
    and "secretInt_of env seed = Curve_N"
  shows "newMaster env seed network
         = Inr \<lparr>privVer = HDPrivateKeyID network, pubVer = HDPublicKeyID network,
                key = take (length (hmacDigest env MASTER_KEY seed) div 2)
                        (hmacDigest env MASTER_KEY seed),
                pubKey = [],
                chainCode = drop (length (hmacDigest env MASTER_KEY seed) div 2)
                              (hmacDigest env MASTER_KEY seed),
                parentFP = [0x00, 0x00, 0x00, 0x00],
                depth = 0, childNum = 0, isPrivate = True\<rparr>"
proof -
  have "0 < Curve_N" by (simp add: Curve_N_def)
  with assms show ?thesis
    unfolding secretInt_of_def
    by (simp add: newMaster_def Let_def MAX_SECRET_INT_is_order)
qed

text \<open>The curve order as 32 big-endian bytes, and a digest whose first half it is.\<close>

definition order_bytes :: ByteArray where
  "order_bytes =
     [0xFF, 0xFF, 0xFF, 0xFF, 0xFF, 0xFF, 0xFF, 0xFF, 0xFF, 0xFF, 0xFF, 0xFF, 0xFF, 0xFF, 0xFF, 0xFE,
      0xBA, 0xAE, 0xDC, 0xE6, 0xAF, 0x48, 0xA0, 0x3B, 0xBF, 0xD2, 0x5E, 0x8C, 0xD0, 0x36, 0x41, 0x41]"

definition order_digest :: "ByteArray \<Rightarrow> ByteArray \<Rightarrow> ByteArray" where
  "order_digest k seed = order_bytes @ replicate 32 0x01"

definition order_env :: KeyDeriver_env where
  "order_env = \<lparr>hmacDigest = order_digest, MinSeedBytes = 16, MaxSeedBytes = 64\<rparr>"

lemma order_bytes_value: "int (nat_of_bytes order_bytes) = Curve_N"
  by (simp add: order_bytes_def nat_of_bytes_def Curve_N_def)

definition example_network :: Network where
  "example_network =
     \<lparr>HDPrivateKeyID = [0x02, 0xfd, 0xa4, 0xe8], HDPublicKeyID = [0x02, 0xfd, 0xa9, 0x26]\<rparr>"

theorem C4_newMaster_accepts_curve_order_witness:
  "MinSeedBytes order_env \<le> length (replicate 16 (0x2a :: byte))
   \<and> length (replicate 16 (0x2a :: byte)) \<le> MaxSeedBytes order_env
   \<and> secretInt_of order_env (replicate 16 0x2a) = Curve_N
   \<and> newMaster order_env (replicate 16 0x2a) example_network
     = Inr \<lparr>privVer = HDPrivateKeyID example_network, pubVer = HDPublicKeyID example_network,
            key = order_bytes, pubKey = [],
            chainCode = replicate 32 0x01, parentFP = [0x00, 0x00, 0x00, 0x00],
            depth = 0, childNum = 0, isPrivate = True\<rparr>"
proof -
  have a: "MinSeedBytes order_env \<le> length (replicate 16 (0x2a :: byte))"
    and b: "length (replicate 16 (0x2a :: byte)) \<le> MaxSeedBytes order_env"
    by (simp_all add: order_env_def)
  have l: "length order_bytes = 32" by (simp add: order_bytes_def)
  have c: "secretInt_of order_env (replicate 16 0x2a) = Curve_N"
    using order_bytes_value by (simp add: secretInt_of_def order_env_def order_digest_def l)
  show ?thesis
    using a b c C4_newMaster_accepts_curve_order [OF a b c, of example_network]
    by (simp add: order_env_def order_digest_def l)
qed

section \<open>SigHashCalculator\<close>

definition HASH_SIZE :: nat where "HASH_SIZE = 32"
definition SigHashAll :: int where "SigHashAll = 0x1"
definition SigHashNone :: int where "SigHashNone = 0x2"
definition SigHashSingle :: int where "SigHashSingle = 0x3"
definition SigHashAnyOneCanPay :: int where "SigHashAnyOneCanPay = 0x80"
definition sigHashMask :: int where "sigHashMask = 0x1f"
definition SigHashSerializePrefix :: int where "SigHashSerializePrefix = 1"
definition SigHashSerializeWitness :: int where "SigHashSerializeWitness = 3"
definition SigHashOptimization :: bool where "SigHashOptimization = False"


text \<open>
  Modelled from the spec: the transaction of \<open>wire.msgtx\<close> (not among the sources), with the
  fields \<open>calcSignatureHash\<close> reads; the sighash preimage layout gives their widths.
\<close>

record OutPoint =
  op_hash :: ByteArray
  op_index :: int
  op_tree :: int

record TxIn =
  previousOutPoint :: OutPoint
  sequence :: int

record TxOut =
  txout_value :: int
  txout_version :: int
  pkScript :: ByteArray

record MsgTx =
  tx_version :: int
  txIn :: "TxIn list"
  txOut :: "TxOut list"
  lockTime :: int
  expiry :: int

text \<open>
  Modelled from the spec: \<open>wire.varIntSerializeSize\<close> (not among the sources), with the
  values \<open>test_var_int_serialize\<close> checks.
\<close>

definition varIntSerializeSize :: "int \<Rightarrow> int" where
  "varIntSerializeSize val =
     (if val < 0xfd then 1
      else if val \<le> 0xffff then 3
      else if val \<le> 0xffffffff then 5
      else 9)"

text \<open>
  A buffer built by a run of \<open>buf += piece\<close>: the pieces in order, the first one that
  raises ending the run.
\<close>

fun concatE :: "(error + ByteArray) list \<Rightarrow> error + ByteArray" where
  "concatE [] = Inr []"
| "concatE (x # xs) =
     (case x of
        Inl e \<Rightarrow> Inl e
      | Inr b \<Rightarrow> (case concatE xs of Inl e \<Rightarrow> Inl e | Inr bs \<Rightarrow> Inr (b @ bs)))"

text \<open>\<open>ByteArray(v, length=n).littleEndian()\<close>.\<close>

definition littleEndian ::
  "(int \<Rightarrow> nat \<Rightarrow> error + ByteArray) \<Rightarrow> int \<Rightarrow> nat \<Rightarrow> error + ByteArray" where
  "littleEndian other v n =
     (case ByteArray_len other v n of Inl e \<Rightarrow> Inl e | Inr b \<Rightarrow> Inr (rev b))"

text \<open>
  \<open>putVarInt\<close>. \<open>reversed(ByteArray(0xfd, length=3))\<close> is the marker byte followed by
  zeros; the little-endian value is OR-ed into its right end.
\<close>

definition putVarInt :: "(int \<Rightarrow> nat \<Rightarrow> error + ByteArray) \<Rightarrow> int \<Rightarrow> error + ByteArray" where
  "putVarInt other val =
     (if val < 0xfd then ByteArray_len other val 1
      else if val \<le> 0xffff then
        (case ByteArray_len other 0xfd 3 of Inl e \<Rightarrow> Inl e | Inr m \<Rightarrow>
         (case littleEndian other val 2 of Inl e \<Rightarrow> Inl e | Inr b \<Rightarrow> Inr (ba_or (rev m) b)))
      else if val \<le> 0xffffffff then
        (case ByteArray_len other 0xfe 5 of Inl e \<Rightarrow> Inl e | Inr m \<Rightarrow>
         (case littleEndian other val 4 of Inl e \<Rightarrow> Inl e | Inr b \<Rightarrow> Inr (ba_or (rev m) b)))
      else
        (case ByteArray_len other 0xff 9 of Inl e \<Rightarrow> Inl e | Inr m \<Rightarrow>
         (case littleEndian other val 8 of Inl e \<Rightarrow> Inl e | Inr b \<Rightarrow> Inr (ba_or (rev m) b))))"

text \<open>The public key script an output commits to under the hash type.\<close>

definition committed_pkScript :: "int \<Rightarrow> nat \<Rightarrow> nat \<Rightarrow> TxOut \<Rightarrow> ByteArray" where
  "committed_pkScript hashType signIdx txOutIdx out =
     (if hashType AND sigHashMask = SigHashSingle \<and> txOutIdx \<noteq> signIdx then []
      else pkScript out)"

definition sigHashPrefixSerializeSize :: "int \<Rightarrow> TxIn list \<Rightarrow> TxOut list \<Rightarrow> nat \<Rightarrow> int" where
  "sigHashPrefixSerializeSize hashType txIns txOuts signIdx =
     (let numTxIns = int (length txIns);
          numTxOuts = int (length txOuts);
          size = 4 + varIntSerializeSize numTxIns + numTxIns * (int HASH_SIZE + 4 + 1 + 4)
                 + varIntSerializeSize numTxOuts + numTxOuts * (8 + 2) + 4 + 4
      in size
         + sum_list (map (\<lambda>(txOutIdx, out).
               varIntSerializeSize (int (length (committed_pkScript hashType signIdx txOutIdx out)))
               + int (length (committed_pkScript hashType signIdx txOutIdx out)))
             (List.enumerate 0 txOuts)))"

definition sigHashWitnessSerializeSize :: "TxIn list \<Rightarrow> ByteArray \<Rightarrow> int" where
  "sigHashWitnessSerializeSize txIns signScript =
     (let numTxIns = int (length txIns)
      in 4 + varIntSerializeSize numTxIns + (numTxIns - 1)
         + varIntSerializeSize (int (length signScript)) + int (length signScript))"

text \<open>The bytes one input and one output add to the prefix buffer.\<close>

definition prefix_txIn ::
  "(int \<Rightarrow> nat \<Rightarrow> error + ByteArray) \<Rightarrow> int \<Rightarrow> nat \<Rightarrow> nat \<times> TxIn \<Rightarrow> error + ByteArray" where
  "prefix_txIn other hashType signTxInIdx p =
     (let txInIdx = fst p;
          prevOut = previousOutPoint (snd p);
          sequence = (if (hashType AND sigHashMask = SigHashNone
                          \<or> hashType AND sigHashMask = SigHashSingle)
                         \<and> txInIdx \<noteq> signTxInIdx
                      then 0 else sequence (snd p))
      in concatE [Inr (op_hash prevOut),
                  littleEndian other (op_index prevOut) 4,
                  ByteArray_len other (op_tree prevOut) 1,
                  littleEndian other sequence 4])"

definition prefix_txOut ::
  "(int \<Rightarrow> nat \<Rightarrow> error + ByteArray) \<Rightarrow> int \<Rightarrow> nat \<Rightarrow> nat \<times> TxOut \<Rightarrow> error + ByteArray" where
  "prefix_txOut other hashType idx p =
     (let txOutIdx = fst p;
          val = (if hashType AND sigHashMask = SigHashSingle \<and> txOutIdx \<noteq> idx
                 then - 1 else txout_value (snd p));
          pkScript = committed_pkScript hashType idx txOutIdx (snd p)
      in concatE [littleEndian other val 8,
                  littleEndian other (txout_version (snd p)) 2,
                  putVarInt other (int (length pkScript)),
                  Inr pkScript])"

definition prefix_serialize ::
  "(int \<Rightarrow> nat \<Rightarrow> error + ByteArray) \<Rightarrow> int \<Rightarrow> MsgTx \<Rightarrow> nat \<Rightarrow> TxIn list \<Rightarrow> nat \<Rightarrow> TxOut list
   \<Rightarrow> error + ByteArray" where
  "prefix_serialize other hashType tx idx txIns signTxInIdx txOuts =
     concatE
       ([littleEndian other (tx_version tx OR push_bit 16 SigHashSerializePrefix) 4,
         putVarInt other (int (length txIns))]
        @ map (prefix_txIn other hashType signTxInIdx) (List.enumerate 0 txIns)
        @ [putVarInt other (int (length txOuts))]
        @ map (prefix_txOut other hashType idx) (List.enumerate 0 txOuts)
        @ [littleEndian other (lockTime tx) 4,
           littleEndian other (expiry tx) 4])"

text \<open>The bytes one input adds to the witness buffer.\<close>

definition witness_txIn ::
  "(int \<Rightarrow> nat \<Rightarrow> error + ByteArray) \<Rightarrow> ByteArray \<Rightarrow> nat \<Rightarrow> nat \<Rightarrow> error + ByteArray" where
  "witness_txIn other scr signTxInIdx txInIdx =
     (let commitScript = (if txInIdx \<noteq> signTxInIdx then [] else scr)
      in concatE [putVarInt other (int (length commitScript)), Inr commitScript])"

definition witness_serialize ::
  "(int \<Rightarrow> nat \<Rightarrow> error + ByteArray) \<Rightarrow> ByteArray \<Rightarrow> MsgTx \<Rightarrow> TxIn list \<Rightarrow> nat
   \<Rightarrow> error + ByteArray" where
  "witness_serialize other scr tx txIns signTxInIdx =
     concatE
       ([case ByteArray_len other (tx_version tx) 4 of
           Inl e \<Rightarrow> Inl e
         | Inr v \<Rightarrow>
             (case ByteArray_int other (push_bit 16 SigHashSerializeWitness) of
                Inl e \<Rightarrow> Inl e
              | Inr w \<Rightarrow> Inr (rev (ba_or v w))),
         putVarInt other (int (length txIns))]
        @ map (witness_txIn other scr signTxInIdx) [0..<length txIns])"

text \<open>
  The three hashes of \<open>calcSignatureHash\<close>: the prefix hash (the source's \<open>else\<close>
  branch, taken when no cached prefix is used), the witness hash, and the final hash of
  hash type, prefix hash and witness hash. \<open>hashH\<close> (the block hash function of
  \<open>crypto\<close>) is a parameter.
\<close>

definition prefix_hash ::
  "(int \<Rightarrow> nat \<Rightarrow> error + ByteArray) \<Rightarrow> (ByteArray \<Rightarrow> ByteArray) \<Rightarrow> int \<Rightarrow> MsgTx \<Rightarrow> nat
   \<Rightarrow> TxIn list \<Rightarrow> nat \<Rightarrow> error + ByteArray" where
  "prefix_hash other hashH hashType tx idx txIns signTxInIdx =
     (let requiredSigs = hashType AND sigHashMask;
          txOuts = (if requiredSigs = SigHashNone then []
                    else if requiredSigs = SigHashSingle then take (idx + 1) (txOut tx)
                    else txOut tx);
          expectedSize = sigHashPrefixSerializeSize hashType txIns txOuts idx
      in case prefix_serialize other hashType tx idx txIns signTxInIdx txOuts of
           Inl e \<Rightarrow> Inl e
         | Inr prefixBuf \<Rightarrow>
             if int (length prefixBuf) \<noteq> expectedSize
             then Inl (Exception ''incorrect prefix serialization size'')
             else Inr (hashH prefixBuf))"

definition witness_hash ::
  "(int \<Rightarrow> nat \<Rightarrow> error + ByteArray) \<Rightarrow> (ByteArray \<Rightarrow> ByteArray) \<Rightarrow> ByteArray \<Rightarrow> MsgTx
   \<Rightarrow> TxIn list \<Rightarrow> nat \<Rightarrow> error + ByteArray" where
  "witness_hash other hashH scr tx txIns signTxInIdx =
     (let expectedSize = sigHashWitnessSerializeSize txIns scr
      in case witness_serialize other scr tx txIns signTxInIdx of
           Inl e \<Rightarrow> Inl e
         | Inr witnessBuf \<Rightarrow>
             if int (length witnessBuf) \<noteq> expectedSize
             then Inl (Exception ''incorrect witness serialization size'')
             else Inr (hashH witnessBuf))"

definition final_hash ::
  "(int \<Rightarrow> nat \<Rightarrow> error + ByteArray) \<Rightarrow> (ByteArray \<Rightarrow> ByteArray) \<Rightarrow> int \<Rightarrow> ByteArray
   \<Rightarrow> ByteArray \<Rightarrow> error + ByteArray" where
  "final_hash other hashH hashType prefixHash witnessHash =
     (let sigHashBuf = zeros (HASH_SIZE * 2 + 4)
      in case littleEndian other hashType 4 of
           Inl e \<Rightarrow> Inl e
         | Inr ht \<Rightarrow>
             (let sigHashBuf = ba_setitem sigHashBuf 0 ht;
                  sigHashBuf = ba_setitem sigHashBuf 4 prefixHash;
                  sigHashBuf = ba_setitem sigHashBuf (4 + HASH_SIZE) witnessHash
              in Inr (hashH sigHashBuf)))"

text \<open>
  \<open>calcSignatureHash\<close>. \<open>idx\<close> is a list index. The result of \<open>checkScriptParses\<close>
  is dropped, as in the source. The cached prefix is used only under
  \<open>SigHashOptimization\<close>, for plain \<open>SigHashAll\<close>.
\<close>

definition calcSignatureHash ::
  "(int \<Rightarrow> nat \<Rightarrow> error + ByteArray) \<Rightarrow> (ByteArray \<Rightarrow> ByteArray) \<Rightarrow> ByteArray \<Rightarrow> int \<Rightarrow> MsgTx
   \<Rightarrow> nat \<Rightarrow> ByteArray option \<Rightarrow> error + ByteArray" where
  "calcSignatureHash other hashH scr hashType tx idx cachedPrefix =
     (case checkScriptParses 0 scr of
        Inl e \<Rightarrow> Inl e
      | Inr parse_result \<Rightarrow>
          if hashType AND sigHashMask = SigHashSingle \<and> idx \<ge> length (txOut tx)
          then Inl (Exception ''attempt to sign single input at index >= outputs'')
          else
            let anyone = (hashType AND SigHashAnyOneCanPay \<noteq> 0);
                txIns = (if anyone then take 1 (drop idx (txIn tx)) else txIn tx);
                signTxInIdx = (if anyone then 0 else idx)
            in
            case (case (if SigHashOptimization \<and> hashType AND sigHashMask = SigHashAll
                           \<and> hashType AND SigHashAnyOneCanPay = 0
                        then cachedPrefix else None) of
                    Some p \<Rightarrow> Inr p
                  | None \<Rightarrow> prefix_hash other hashH hashType tx idx txIns signTxInIdx) of
              Inl e \<Rightarrow> Inl e
            | Inr prefixHash \<Rightarrow>
                (case witness_hash other hashH scr tx txIns signTxInIdx of
                   Inl e \<Rightarrow> Inl e
                 | Inr witnessHash \<Rightarrow> final_hash other hashH hashType prefixHash witnessHash))"

text \<open>
  Claim C10. For every script, hash type, transaction and input index, the value returned
  by \<open>calcSignatureHash\<close> does not depend on the \<open>cachedPrefix\<close> argument: the call
  with any \<open>p\<close> equals the call with \<open>None\<close>, because \<open>SigHashOptimization\<close> is
  \<open>False\<close>.
\<close>

theorem C10_cachedPrefix_ignored:
  "calcSignatureHash other hashH scr hashType tx idx p
   = calcSignatureHash other hashH scr hashType tx idx None"
  unfolding calcSignatureHash_def SigHashOptimization_def by (simp only: simp_thms if_False)

subsection \<open>Sizes of the serialized pieces\<close>

text \<open>A computation returns (does not raise), and with a byte array of the given length.\<close>

definition returns_len :: "error + ByteArray \<Rightarrow> int \<Rightarrow> bool" where
  "returns_len x n = (case x of Inl e \<Rightarrow> False | Inr b \<Rightarrow> int (length b) = n)"





lemma returns_len_Inr [simp]: "returns_len (Inr b) n \<longleftrightarrow> int (length b) = n"
  by (simp add: returns_len_def)

lemma returns_len_Inl [simp]: "\<not> returns_len (Inl e) n"
  by (simp add: returns_len_def)

























subsection \<open>The script check cannot raise\<close>





subsection \<open>The signature hash\<close>


























end
